(* ===== verification/Flappy_Prelude.thy ===== *)
theory Flappy_Prelude
  imports Complex_Main
begin

text \<open>
  Shared vocabulary of the development: the configuration constants that
  \<^verbatim>\<open>src/hand_flappy_pro.py\<close> declares at module level, Python's \<open>int()\<close> on a float
  (truncation toward zero, unlike HOL's \<open>floor\<close>), and the generic lemmas on
  integer truncation, sorted lists and list shifts that the component theories share.
  The constants are collected in \<open>game_consts\<close>, so that a proof about concrete
  positions unfolds them with \<open>simp add: game_consts\<close>.
\<close>

named_theorems game_consts "configuration constants of hand_flappy_pro.py"

definition WIDTH :: int where
  [game_consts]: "WIDTH = 1000"

definition HEIGHT :: int where
  [game_consts]: "HEIGHT = 700"

definition gravity :: real where
  [game_consts]: "gravity = 0.5"

definition pipe_gap :: int where
  [game_consts]: "pipe_gap = 180"

definition normal_pipe_speed :: int where
  [game_consts]: "normal_pipe_speed = 5"

definition turbo_pipe_speed :: int where
  [game_consts]: "turbo_pipe_speed = 10"

text \<open>Python's \<open>int(x)\<close> on a float drops the fractional part, toward zero.\<close>

definition py_int :: "real \<Rightarrow> int" where
  "py_int x = (if 0 \<le> x then \<lfloor>x\<rfloor> else \<lceil>x\<rceil>)"

text \<open>Integer division truncating toward zero, for a positive divisor.\<close>

definition trunc_div :: "int \<Rightarrow> int \<Rightarrow> int" where
  "trunc_div a b = (if 0 \<le> a then a div b else - ((- a) div b))"

lemma py_int_of_int [simp]: "py_int (of_int n) = n"
  by (simp add: py_int_def)

lemma py_int_numeral [simp]: "py_int (numeral n) = numeral n"
  by (simp add: py_int_def)

lemma py_int_floor: "0 \<le> x \<Longrightarrow> py_int x = \<lfloor>x\<rfloor>"
  by (simp add: py_int_def)

lemma py_int_ceiling: "x < 0 \<Longrightarrow> py_int x = \<lceil>x\<rceil>"
  by (simp add: py_int_def)

lemma py_int_div:
  assumes "0 < b"
  shows "py_int (of_int a / of_int b) = trunc_div a b"
proof (cases "0 \<le> a")
  case True
  with assms have "0 \<le> (of_int a / of_int b :: real)" by simp
  with True show ?thesis
    by (simp add: py_int_def trunc_div_def floor_divide_of_int_eq)
next
  case False
  with assms have neg: "(of_int a / of_int b :: real) < 0"
    by (simp add: divide_neg_pos)
  have "\<lceil>of_int a / of_int b :: real\<rceil> = - \<lfloor>of_int (- a) / of_int b :: real\<rfloor>"
    by (simp add: ceiling_def)
  also have "\<dots> = - ((- a) div b)"
    by (simp only: floor_divide_of_int_eq)
  finally show ?thesis
    using False neg by (simp add: py_int_def trunc_div_def)
qed

lemma trunc_div_nonneg: "0 \<le> a \<Longrightarrow> trunc_div a b = a div b"
  by (simp add: trunc_div_def)

lemma div_eq_iff_bounds:
  assumes "0 < b"
  shows "(a :: int) div b = q \<longleftrightarrow> b * q \<le> a \<and> a < b * q + b"
proof
  assume q: "a div b = q"
  have "a = b * q + a mod b"
    using q div_mult_mod_eq [of a b] by (simp add: mult.commute)
  moreover have "0 \<le> a mod b" "a mod b < b"
    using assms by simp_all
  ultimately show "b * q \<le> a \<and> a < b * q + b" by linarith
next
  assume "b * q \<le> a \<and> a < b * q + b"
  then show "a div b = q"
    by (intro int_div_pos_eq [where r = "a - b * q"]) auto
qed

text \<open>
  Lists of positions spaced by more than \<open>c\<close>: every later element exceeds every
  earlier one by more than \<open>c\<close>. Uniform shifts and filters keep the spacing, and a
  spaced list spans at least \<open>c\<close> per step.
\<close>

lemma sorted_wrt_gap_shift:
  "sorted_wrt (\<lambda>a b. a + c < b) (map (\<lambda>x. x - d) xs) \<longleftrightarrow> sorted_wrt (\<lambda>a b. a + c < b) (xs :: int list)"
  by (induction xs) auto

lemma sorted_wrt_map_filter:
  "sorted_wrt R (map f xs) \<Longrightarrow> sorted_wrt R (map f (filter P xs))"
  by (induction xs) auto

lemma sorted_wrt_gap_last:
  "sorted_wrt (\<lambda>a b. a + c < b) (xs :: int list) \<Longrightarrow> 0 \<le> c \<Longrightarrow> xs \<noteq> [] \<Longrightarrow>
     \<forall>y \<in> set xs. y \<le> last xs"
proof (induction xs)
  case Nil
  then show ?case by simp
next
  case (Cons x xs)
  show ?case
  proof (cases "xs = []")
    case True
    then show ?thesis by simp
  next
    case False
    with Cons have ih: "\<forall>y \<in> set xs. y \<le> last xs" by simp
    have "x + c < last xs" using Cons.prems(1) False by simp
    then show ?thesis using ih False Cons.prems(2) by auto
  qed
qed

lemma sorted_wrt_gap_span:
  "sorted_wrt (\<lambda>a b. a + c < b) (xs :: int list) \<Longrightarrow> xs \<noteq> [] \<Longrightarrow> 0 \<le> c \<Longrightarrow>
     hd xs + c * int (length xs - 1) \<le> last xs"
proof (induction xs)
  case Nil
  then show ?case by simp
next
  case (Cons x xs)
  show ?case
  proof (cases "xs = []")
    case True
    then show ?thesis by simp
  next
    case False
    then have ih: "hd xs + c * int (length xs - 1) \<le> last xs"
      using Cons by simp
    have "x + c < hd xs" using Cons.prems(1) False by (cases xs) auto
    then show ?thesis using ih False by (cases xs) (auto simp: algebra_simps)
  qed
qed

lemma spaced_length_le:
  assumes "sorted_wrt (\<lambda>a b. a + c < b) (xs :: int list)" "0 < c" "lo < hi"
    and "\<forall>x \<in> set xs. lo < x \<and> x \<le> hi"
  shows "c * int (length xs - 1) < hi - lo"
proof (cases "xs = []")
  case False
  have "hd xs + c * int (length xs - 1) \<le> last xs"
    using sorted_wrt_gap_span [OF assms(1) False] assms(2) by simp
  moreover have "lo < hd xs" "last xs \<le> hi"
    using assms(4) False by auto
  ultimately show ?thesis by linarith
qed (use assms(3) in simp)

end
