(* ===== verification/Py_Float.thy ===== *)
theory Py_Float
  imports Flappy_Prelude
begin

text \<open>
  Python floats (IEEE 754 binary64) as exact dyadic values. A float is \<open>PyFloat m e\<close>,
  the value \<open>m * 2 ^ e\<close>, as the AFP's \<open>Conversion_IEEE_Float\<close> pairs a mantissa with an
  exponent. Every arithmetic operation computes the exact result and rounds it to 53
  significant bits, to nearest with ties to even (\<open>fround\<close>), down to the subnormal
  quantum \<open>2 ^ -1074\<close>; \<open>f_int\<close> is Python's \<^verbatim>\<open>int()\<close> on a float, truncation toward
  zero. Overflow to infinity (magnitudes from \<open>2 ^ 1024\<close>) is not modelled.
\<close>

datatype pyfloat = PyFloat int int

definition pow2 :: "int \<Rightarrow> real" where
  "pow2 e = (if 0 \<le> e then 2 ^ nat e else 1 / 2 ^ nat (- e))"

fun fval :: "pyfloat \<Rightarrow> real" where
  "fval (PyFloat m e) = of_int m * pow2 e"

fun expo :: "pyfloat \<Rightarrow> int" where
  "expo (PyFloat m e) = e"

instantiation pyfloat :: ord
begin

definition less_eq_pyfloat :: "pyfloat \<Rightarrow> pyfloat \<Rightarrow> bool" where
  "less_eq_pyfloat x y = (fval x \<le> fval y)"

definition less_pyfloat :: "pyfloat \<Rightarrow> pyfloat \<Rightarrow> bool" where
  "less_pyfloat x y = (fval x < fval y)"

instance ..

end

text \<open>The number of binary digits of a natural number.\<close>

fun nbits :: "nat \<Rightarrow> nat" where
  "nbits n = (if n = 0 then 0 else Suc (nbits (n div 2)))"

text \<open>\<open>m / 2 ^ d\<close> rounded to the nearest integer, ties to even, for \<open>m \<ge> 0\<close>.\<close>

definition round_shift :: "int \<Rightarrow> nat \<Rightarrow> int" where
  "round_shift m d =
     (let q = m div 2 ^ d; r = m mod 2 ^ d in
      if 2 * r < 2 ^ d then q
      else if 2 ^ d < 2 * r then q + 1
      else if even q then q else q + 1)"

definition fround :: "int \<Rightarrow> int \<Rightarrow> pyfloat" where
  "fround m e =
     (let d = max (int (nbits (nat \<bar>m\<bar>)) - 53) (- 1074 - e) in
      if d \<le> 0 then PyFloat m e
      else PyFloat (sgn m * round_shift \<bar>m\<bar> (nat d)) (e + d))"

definition f_of_int :: "int \<Rightarrow> pyfloat" where
  "f_of_int n = fround n 0"

fun fmul :: "pyfloat \<Rightarrow> pyfloat \<Rightarrow> pyfloat" where
  "fmul (PyFloat m1 e1) (PyFloat m2 e2) = fround (m1 * m2) (e1 + e2)"

fun fadd :: "pyfloat \<Rightarrow> pyfloat \<Rightarrow> pyfloat" where
  "fadd (PyFloat m1 e1) (PyFloat m2 e2) =
     (let e = min e1 e2 in fround (m1 * 2 ^ nat (e1 - e) + m2 * 2 ^ nat (e2 - e)) e)"

fun fsub :: "pyfloat \<Rightarrow> pyfloat \<Rightarrow> pyfloat" where
  "fsub (PyFloat m1 e1) (PyFloat m2 e2) =
     (let e = min e1 e2 in fround (m1 * 2 ^ nat (e1 - e) - m2 * 2 ^ nat (e2 - e)) e)"

fun f_int :: "pyfloat \<Rightarrow> int" where
  "f_int (PyFloat m e) = (if 0 \<le> e then m * 2 ^ nat e else trunc_div m (2 ^ nat (- e)))"

subsection \<open>Powers of two\<close>

lemma pow2_powr: "pow2 e = 2 powr of_int e"
  by (auto simp: pow2_def powr_realpow [symmetric] powr_minus_divide)

lemma pow2_add: "pow2 (a + b) = pow2 a * pow2 b"
  by (simp add: pow2_powr powr_add)

lemma pow2_pos [simp]: "0 < pow2 e"
  by (simp add: pow2_powr)

lemma pow2_abs [simp]: "\<bar>pow2 e\<bar> = pow2 e"
  by (rule abs_of_pos) simp

lemma pow2_nat [simp]: "pow2 (int n) = 2 ^ n"
  by (simp add: pow2_def)

lemma pow2_numeral [simp]:
  "pow2 0 = 1" "pow2 1 = 2" "pow2 (- 1) = 1 / 2"
  "pow2 (numeral k) = 2 ^ numeral k" "pow2 (- numeral k) = 1 / 2 ^ numeral k"
  by (simp_all add: pow2_def)

subsection \<open>Binary length\<close>

declare nbits.simps [simp del]

lemma nbits_0 [simp]: "nbits 0 = 0"
  by (simp add: nbits.simps)

lemma nbits_Suc_0 [simp]: "nbits (Suc 0) = 1"
  by (simp add: nbits.simps)

lemma nbits_Bit0 [simp]: "nbits (numeral (num.Bit0 k)) = Suc (nbits (numeral k))"
  by (subst nbits.simps) simp

lemma nbits_Bit1 [simp]: "nbits (numeral (num.Bit1 k)) = Suc (nbits (numeral k))"
  by (subst nbits.simps) simp

lemma nbits_bounds: "0 < n \<Longrightarrow> 2 ^ (nbits n - 1) \<le> n \<and> n < 2 ^ nbits n"
proof (induction n rule: nbits.induct)
  case (1 n)
  show ?case
  proof (cases "n = 1")
    case True
    then show ?thesis by simp
  next
    case False
    with "1.prems" have h: "0 < n div 2" by simp
    define k where "k = nbits (n div 2)"
    have ih: "2 ^ (k - 1) \<le> n div 2 \<and> n div 2 < 2 ^ k"
      using "1.IH" "1.prems" h by (simp add: k_def)
    have k: "0 < k" using ih by (cases k) auto
    have nk: "nbits n = Suc k" using "1.prems" by (simp add: nbits.simps [of n] k_def)
    have "(2::nat) ^ k = 2 * 2 ^ (k - 1)" using k by (cases k) auto
    then show ?thesis using ih nk by auto
  qed
qed

lemma nbits_le: "n < 2 ^ k \<Longrightarrow> nbits n \<le> k"
proof (cases "n = 0")
  case False
  assume "n < 2 ^ k"
  with False nbits_bounds [of n] have "(2::nat) ^ (nbits n - 1) < 2 ^ k"
    by (meson le_less_trans neq0_conv)
  then have "nbits n - 1 < k" using power_strict_increasing_iff [of "2::nat"] by simp
  then show ?thesis by simp
qed simp

subsection \<open>Rounding\<close>

lemma round_shift_err:
  assumes "0 \<le> m"
  shows "2 * \<bar>2 ^ d * round_shift m d - m\<bar> \<le> (2 ^ d :: int)"
proof -
  define D :: int where "D = 2 ^ d"
  define q where "q = m div D"
  define r where "r = m mod D"
  have D: "0 < D" by (simp add: D_def)
  have m: "m = D * q + r" by (simp add: q_def r_def)
  have r: "0 \<le> r \<and> r < D" using D by (simp add: r_def)
  show ?thesis
    unfolding round_shift_def Let_def D_def [symmetric] q_def [symmetric] r_def [symmetric]
    using r by (auto simp: m algebra_simps)
qed

lemma round_shift_nonneg: "0 \<le> m \<Longrightarrow> 0 \<le> round_shift m d"
  by (simp add: round_shift_def Let_def pos_imp_zdiv_nonneg_iff)

lemma fround_exact: "nbits (nat \<bar>m\<bar>) \<le> 53 \<Longrightarrow> - 1074 \<le> e \<Longrightarrow> fround m e = PyFloat m e"
  by (simp add: fround_def Let_def)

lemma fround_expo: "e \<le> expo (fround m e)"
  by (simp add: fround_def Let_def max_def)

lemma fround_err:
  assumes "- 1021 \<le> e"
  shows "\<bar>fval (fround m e) - of_int m * pow2 e\<bar> \<le> \<bar>of_int m * pow2 e\<bar> / 2 ^ 53"
proof (cases "nbits (nat \<bar>m\<bar>) \<le> 53")
  case True
  then show ?thesis using assms by (simp add: fround_exact)
next
  case False
  define d where "d = nbits (nat \<bar>m\<bar>) - 53"
  have d0: "0 < d" using False by (simp add: d_def)
  have dmax: "max (int (nbits (nat \<bar>m\<bar>)) - 53) (- 1074 - e) = int d"
    using False assms by (simp add: d_def max_def of_nat_diff)
  have f: "fround m e = PyFloat (sgn m * round_shift \<bar>m\<bar> d) (e + int d)"
    using d0 by (simp add: fround_def Let_def dmax)
  have m0: "0 < nat \<bar>m\<bar>" using False by (cases "nat \<bar>m\<bar> = 0") auto
  have e: "nbits (nat \<bar>m\<bar>) - 1 = d + 52" using False by (simp add: d_def)
  have "(2::nat) ^ (d + 52) \<le> nat \<bar>m\<bar>" using nbits_bounds [OF m0] unfolding e by (rule conjunct1)
  then have "int ((2::nat) ^ (d + 52)) \<le> int (nat \<bar>m\<bar>)" by (simp only: of_nat_le_iff)
  then have big: "(2::int) ^ d * 2 ^ 52 \<le> \<bar>m\<bar>" by (simp add: power_add)
  have r: "2 * \<bar>2 ^ d * round_shift \<bar>m\<bar> d - \<bar>m\<bar>\<bar> \<le> (2 ^ d :: int)"
    by (rule round_shift_err) simp
  define k where "k = sgn m * round_shift \<bar>m\<bar> d * 2 ^ d - m"
  have "sgn m * (2 ^ d * round_shift \<bar>m\<bar> d - \<bar>m\<bar>)
          = sgn m * round_shift \<bar>m\<bar> d * 2 ^ d - sgn m * \<bar>m\<bar>"
    by (simp add: algebra_simps)
  then have "k = sgn m * (2 ^ d * round_shift \<bar>m\<bar> d - \<bar>m\<bar>)"
    by (simp only: k_def sgn_mult_abs)
  then have "\<bar>k\<bar> = \<bar>2 ^ d * round_shift \<bar>m\<bar> d - \<bar>m\<bar>\<bar>"
    using m0 by (simp add: abs_mult abs_sgn_eq)
  with r big have "2 ^ 53 * \<bar>k\<bar> \<le> \<bar>m\<bar>" by simp
  then have "real_of_int (2 ^ 53 * \<bar>k\<bar>) \<le> real_of_int \<bar>m\<bar>" by (simp only: of_int_le_iff)
  then have kr: "2 ^ 53 * \<bar>of_int k\<bar> \<le> \<bar>of_int m :: real\<bar>" by simp
  have v: "fval (fround m e) - of_int m * pow2 e = of_int k * pow2 e"
    by (simp add: f k_def pow2_add algebra_simps)
  have "(2 ^ 53 * \<bar>of_int k\<bar>) * pow2 e \<le> \<bar>of_int m\<bar> * pow2 e"
    using kr by simp
  then show ?thesis unfolding v by (simp add: abs_mult field_simps)
qed

subsection \<open>The operations\<close>

lemma pow2_shift: "e \<le> e1 \<Longrightarrow> pow2 e1 = pow2 e * 2 ^ nat (e1 - e)"
proof -
  assume "e \<le> e1"
  then have "pow2 (e1 - e) = 2 ^ nat (e1 - e)" by (simp add: pow2_def)
  then show ?thesis using pow2_add [of e "e1 - e"] by simp
qed

lemma fmul_err:
  assumes "- 1021 \<le> expo x + expo y"
  shows "\<bar>fval (fmul x y) - fval x * fval y\<bar> \<le> \<bar>fval x * fval y\<bar> / 2 ^ 53"
proof (cases x, cases y)
  fix m1 e1 m2 e2
  assume xy: "x = PyFloat m1 e1" "y = PyFloat m2 e2"
  have eq: "fval x * fval y = of_int (m1 * m2) * pow2 (e1 + e2)"
    by (simp add: xy pow2_add)
  show ?thesis using fround_err [of "e1 + e2" "m1 * m2"] assms unfolding eq by (simp add: xy)
qed

lemma fadd_err:
  assumes "- 1021 \<le> min (expo x) (expo y)"
  shows "\<bar>fval (fadd x y) - (fval x + fval y)\<bar> \<le> \<bar>fval x + fval y\<bar> / 2 ^ 53"
proof (cases x, cases y)
  fix m1 e1 m2 e2
  assume xy: "x = PyFloat m1 e1" "y = PyFloat m2 e2"
  define e where "e = min e1 e2"
  have "fval x + fval y = of_int (m1 * 2 ^ nat (e1 - e) + m2 * 2 ^ nat (e2 - e)) * pow2 e"
    using pow2_shift [of e e1] pow2_shift [of e e2]
    by (simp add: xy e_def algebra_simps)
  then show ?thesis
    using fround_err [of e "m1 * 2 ^ nat (e1 - e) + m2 * 2 ^ nat (e2 - e)"] assms
    by (simp add: xy e_def Let_def)
qed

lemma fmul_expo: "expo x + expo y \<le> expo (fmul x y)"
  by (cases x; cases y) (simp add: fround_expo)

lemma fadd_expo: "min (expo x) (expo y) \<le> expo (fadd x y)"
  by (cases x; cases y) (simp add: Let_def fround_expo)

lemma f_of_int_exact: "\<bar>n\<bar> < 2 ^ 53 \<Longrightarrow> f_of_int n = PyFloat n 0"
proof -
  assume "\<bar>n\<bar> < 2 ^ 53"
  then have "nat \<bar>n\<bar> < 2 ^ 53" by (simp add: nat_less_iff)
  then have "nbits (nat \<bar>n\<bar>) \<le> 53" by (rule nbits_le)
  then show ?thesis by (simp add: f_of_int_def fround_exact)
qed

lemma fmul_exact:
  "nbits (nat \<bar>m1 * m2\<bar>) \<le> 53 \<Longrightarrow> - 1074 \<le> e1 + e2 \<Longrightarrow>
   fmul (PyFloat m1 e1) (PyFloat m2 e2) = PyFloat (m1 * m2) (e1 + e2)"
  by (simp add: fround_exact)

lemma f_int_py_int: "f_int x = py_int (fval x)"
proof (cases x)
  case (PyFloat m e)
  show ?thesis
  proof (cases "0 \<le> e")
    case True
    then have "pow2 e = 2 ^ nat e" by (simp add: pow2_def)
    then have "fval x = of_int (m * 2 ^ nat e)" by (simp add: PyFloat)
    then have "py_int (fval x) = m * 2 ^ nat e" by (simp only: py_int_of_int)
    then show ?thesis using True by (simp add: PyFloat del: fval.simps)
  next
    case False
    then have fv: "fval x = of_int m / of_int (2 ^ nat (- e))" by (simp add: PyFloat pow2_def)
    have "py_int (fval x) = trunc_div m (2 ^ nat (- e))" unfolding fv by (rule py_int_div) simp
    then show ?thesis using False by (simp add: PyFloat del: fval.simps)
  qed
qed

end
