(* ===== verification/Game_State.thy ===== *)
theory Game_State
  imports Py_Float
begin

text \<open>
  The program's module-level state. \<^verbatim>\<open>hand_flappy_pro.py\<close> keeps everything in
  globals that its functions rebind (\<^verbatim>\<open>global bird_y, velocity, ...\<close>); the model
  gathers them in the record \<open>game\<close> and every operation takes and returns it.
  A pipe is the Python list \<^verbatim>\<open>[x, height, scored]\<close>, here the record \<open>pipe\<close>.
  Sound objects are the audio collaborator: each \<^verbatim>\<open>.play()\<close> appends its sound to
  the log \<open>audio\<close>, so one-shot behaviour is a statement about that log.
  The landmark provider (OpenCV capture plus MediaPipe) is an input: a \<open>capture\<close> is a
  failed \<^verbatim>\<open>cap.read()\<close> or a processed frame with zero or one hand, and a hand is the
  list of the vertical coordinates of its 21 landmarks, indexed by landmark number
  (the code never reads the \<open>x\<close> or \<open>z\<close> coordinates). A coordinate is a Python
  float (\<open>pyfloat\<close>); MediaPipe produces it as a 32-bit float, which Python reads exactly.
\<close>

datatype sound = Turbo_sound | Score_sound | Gameover_sound

type_synonym hand = "pyfloat list"

datatype capture = Read_failed | Captured "hand option"

record pipe =
  pipe_x :: int
  pipe_h :: int
  scored :: bool

record game =
  bird_x :: int
  bird_y :: real
  velocity :: real
  pipes :: "pipe list"
  score :: int
  game_over :: bool
  turbo_mode :: bool
  turbo_sound_played :: bool
  gameover_sound_played :: bool
  smoothed_y :: int
  audio :: "sound list"

text \<open>\<^verbatim>\<open>sound.play()\<close>: the sound is handed to the audio collaborator.\<close>

definition play :: "sound \<Rightarrow> game \<Rightarrow> game" where
  "play s g = g\<lparr>audio := audio g @ [s]\<rparr>"

text \<open>The globals as the module initialises them, before the first \<^verbatim>\<open>spawn_pipe()\<close>.\<close>

definition initial_globals :: game where
  "initial_globals =
     \<lparr>bird_x = 100, bird_y = of_int (HEIGHT div 2), velocity = 0, pipes = [],
      score = 0, game_over = False, turbo_mode = False,
      turbo_sound_played = False, gameover_sound_played = False,
      smoothed_y = HEIGHT div 2, audio = []\<rparr>"

text \<open>How many times a sound was played in a log.\<close>

definition plays :: "sound \<Rightarrow> sound list \<Rightarrow> nat" where
  "plays s xs = count_list xs s"

lemma play_fields [simp]:
  "bird_x (play s g) = bird_x g" "bird_y (play s g) = bird_y g"
  "velocity (play s g) = velocity g" "pipes (play s g) = pipes g"
  "score (play s g) = score g" "game_over (play s g) = game_over g"
  "turbo_mode (play s g) = turbo_mode g"
  "turbo_sound_played (play s g) = turbo_sound_played g"
  "gameover_sound_played (play s g) = gameover_sound_played g"
  "smoothed_y (play s g) = smoothed_y g"
  "audio (play s g) = audio g @ [s]"
  by (simp_all add: play_def)

lemma play_update_comm [simp]:
  "play s (g\<lparr>pipes := ps\<rparr>) = (play s g)\<lparr>pipes := ps\<rparr>"
  "play s (g\<lparr>score := n\<rparr>) = (play s g)\<lparr>score := n\<rparr>"
  by (simp_all add: play_def)

lemma plays_append [simp]: "plays s (xs @ ys) = plays s xs + plays s ys"
  by (simp add: plays_def)

lemma plays_single [simp]: "plays s [t] = (if t = s then 1 else 0)"
  by (simp add: plays_def)

lemma plays_Nil [simp]: "plays s [] = 0"
  by (simp add: plays_def)

lemma plays_replicate [simp]: "plays s (replicate n t) = (if t = s then n else 0)"
  by (induction n) (auto simp: plays_def)

end
