(* ===== verification/Gesture.thy ===== *)
theory Gesture
  imports Game_State
begin

text \<open>
  Landmark Interpreter: \<^verbatim>\<open>detect_turbo_gesture\<close> (lines 83--106) and
  \<^verbatim>\<open>detect_restart\<close> (lines 141--169) of \<^verbatim>\<open>src/hand_flappy_pro.py\<close>. Both count
  the fingers whose tip landmark (8, 12, 16, 20) lies above (smaller \<open>y\<close> than) its
  PIP joint (6, 10, 14, 18); the count is the loop \<open>up_loop\<close>. Two fingers switch turbo
  mode on, with the turbo sound edge-triggered by \<open>turbo_sound_played\<close>; four fingers
  while the game is over request a restart. The theory also states the spec's single
  classification \<open>classify\<close> into Neutral, Turbo and Restart, and shows that the two
  separate tests of the code implement it.
\<close>

definition fingers :: "nat list" where
  "fingers = [8, 12, 16, 20]"

definition pips :: "nat list" where
  "pips = [6, 10, 14, 18]"

text \<open>\<^verbatim>\<open>for f,p in zip(fingers,pips): if hand.landmark[f].y < hand.landmark[p].y: up += 1\<close>\<close>

fun up_loop :: "hand \<Rightarrow> nat \<Rightarrow> (nat \<times> nat) list \<Rightarrow> nat" where
  "up_loop hand up [] = up"
| "up_loop hand up ((f, p) # fps) =
     up_loop hand (if hand ! f < hand ! p then up + 1 else up) fps"

definition fingers_up :: "hand \<Rightarrow> nat" where
  "fingers_up hand = up_loop hand 0 (zip fingers pips)"

text \<open>
  \<^verbatim>\<open>detect_turbo_gesture(frame_results)\<close>: the argument is the frame's hand, if
  MediaPipe found one (\<^verbatim>\<open>frame_results.multi_hand_landmarks[0]\<close>). With no hand the
  function does nothing at all.
\<close>

definition detect_turbo_gesture :: "hand option \<Rightarrow> game \<Rightarrow> game" where
  "detect_turbo_gesture res g =
     (case res of
        None \<Rightarrow> g
      | Some hand \<Rightarrow>
          (if fingers_up hand = 2 then
             (let g1 = g\<lparr>turbo_mode := True\<rparr>
              in if \<not> turbo_sound_played g1
                 then (play Turbo_sound g1)\<lparr>turbo_sound_played := True\<rparr>
                 else g1)
           else g\<lparr>turbo_mode := False, turbo_sound_played := False\<rparr>))"

text \<open>
  \<^verbatim>\<open>detect_restart()\<close> reads its own frame; it answers whether four fingers are up
  and, if so, re-arms the game-over sound.
\<close>

definition detect_restart :: "capture \<Rightarrow> game \<Rightarrow> bool \<times> game" where
  "detect_restart c g =
     (case c of
        Read_failed \<Rightarrow> (False, g)
      | Captured None \<Rightarrow> (False, g)
      | Captured (Some hand) \<Rightarrow>
          (if 4 \<le> fingers_up hand then (True, g\<lparr>gameover_sound_played := False\<rparr>)
           else (False, g)))"

text \<open>The spec's classification of a finger count (section 3, GestureState).\<close>

datatype gesture = Neutral | Turbo | Restart

definition classify :: "nat \<Rightarrow> gesture" where
  "classify up = (if up = 2 then Turbo else if 4 \<le> up then Restart else Neutral)"

text \<open>
  The spec's edge-triggered turbo sound (section 9): the number of frames, among those
  with a hand, whose count is two while the previous hand's count was not (\<open>prev\<close> is
  whether the previous hand was a turbo hand).
\<close>

fun turbo_entries :: "bool \<Rightarrow> hand option list \<Rightarrow> nat" where
  "turbo_entries prev [] = 0"
| "turbo_entries prev (None # hs) = turbo_entries prev hs"
| "turbo_entries prev (Some h # hs) =
     (if fingers_up h = 2 \<and> \<not> prev then 1 else 0) + turbo_entries (fingers_up h = 2) hs"

text \<open>A test hand: the fingertips in \<open>ups\<close> are raised, the palm centre is at \<open>palm\<close>.\<close>

definition demo_hand :: "nat list \<Rightarrow> pyfloat \<Rightarrow> hand" where
  "demo_hand ups palm =
     map (\<lambda>i. if i = 9 then palm
               else if i \<in> set fingers then (if i \<in> set ups then PyFloat 1 (- 2) else PyFloat 3 (- 2))
               else PyFloat 1 (- 1)) [0..<21]"

subsection \<open>Counting raised fingers\<close>

lemma up_loop_count:
  "up_loop hand up fps = up + length (filter (\<lambda>(f, p). hand ! f < hand ! p) fps)"
  by (induction hand up fps rule: up_loop.induct) auto

lemma demo_hand_palm [simp]: "demo_hand ups palm ! 9 = palm"
  by (simp add: demo_hand_def)

lemma fingers_up_demo_hand:
  "fingers_up (demo_hand ups palm) = length (filter (\<lambda>f. f \<in> set ups) fingers)"
  by (simp add: fingers_up_def demo_hand_def fingers_def pips_def less_pyfloat_def)

subsection \<open>Turbo detection\<close>

lemma detect_turbo_gesture_None [simp]: "detect_turbo_gesture None g = g"
  by (simp add: detect_turbo_gesture_def)

lemma detect_turbo_gesture_Some:
  "detect_turbo_gesture (Some h) g =
     (if fingers_up h = 2 then
        (if turbo_sound_played g then g\<lparr>turbo_mode := True\<rparr>
         else (play Turbo_sound g)\<lparr>turbo_mode := True, turbo_sound_played := True\<rparr>)
      else g\<lparr>turbo_mode := False, turbo_sound_played := False\<rparr>)"
  by (simp add: detect_turbo_gesture_def play_def Let_def)

lemma detect_turbo_gesture_fields [simp]:
  "bird_x (detect_turbo_gesture r g) = bird_x g"
  "bird_y (detect_turbo_gesture r g) = bird_y g"
  "velocity (detect_turbo_gesture r g) = velocity g"
  "pipes (detect_turbo_gesture r g) = pipes g"
  "score (detect_turbo_gesture r g) = score g"
  "game_over (detect_turbo_gesture r g) = game_over g"
  "gameover_sound_played (detect_turbo_gesture r g) = gameover_sound_played g"
  "smoothed_y (detect_turbo_gesture r g) = smoothed_y g"
  by (cases r; simp add: detect_turbo_gesture_Some)+

text \<open>
  C19. With a hand in the frame, the code's test
  \<^verbatim>\<open>up == 2\<close> sets turbo mode exactly when the spec's classification of the finger
  count is Turbo.
\<close>

theorem detect_turbo_gesture_turbo:
  "turbo_mode (detect_turbo_gesture (Some h) g) \<longleftrightarrow> classify (fingers_up h) = Turbo"
  by (simp add: detect_turbo_gesture_Some classify_def)

text \<open>
  C20. Over any sequence of frames, the turbo sound is played once
  per entry into turbo mode and never while it is held: the number of turbo sounds added
  to the audio log is the number of rising edges \<open>turbo_entries\<close>, counted from the
  flag \<open>turbo_sound_played\<close>. Frames without a hand neither play it nor re-arm it.
\<close>

theorem turbo_sound_edge:
  "plays Turbo_sound (audio (fold detect_turbo_gesture hs g)) =
     plays Turbo_sound (audio g) + turbo_entries (turbo_sound_played g) hs"
proof (induction hs arbitrary: g)
  case Nil
  then show ?case by simp
next
  case (Cons r hs)
  then show ?case
    by (cases r) (auto simp: detect_turbo_gesture_Some)
qed

subsection \<open>Restart detection\<close>

text \<open>
  C21. \<^verbatim>\<open>detect_restart\<close> answers True exactly for a frame
  with a hand whose finger count the spec classifies as Restart (four fingers up), and
  then only re-arms the game-over sound; a failed read or a frame without a hand answers
  False and changes nothing.
\<close>

theorem detect_restart_classify:
  "detect_restart c g =
     (if \<exists>h. c = Captured (Some h) \<and> classify (fingers_up h) = Restart
      then (True, g\<lparr>gameover_sound_played := False\<rparr>) else (False, g))"
  by (auto simp: detect_restart_def classify_def split: capture.splits option.splits)

end
