(* ===== verification/Smoother.thy ===== *)
theory Smoother
  imports Gesture
begin

text \<open>
  Signal Smoother: \<^verbatim>\<open>detect_hand_control()\<close> (lines 110--138). It reads a frame,
  runs the turbo detector on it, and, when a hand is present, moves the global
  \<^verbatim>\<open>smoothed_y\<close> toward the palm centre (landmark 9) scaled to screen pixels by
  \<^verbatim>\<open>smoothed_y = int(alpha * target_y + (1 - alpha) * smoothed_y)\<close>. It returns
  \<^verbatim>\<open>smoothed_y\<close> whenever a frame was read, hand or no hand, and \<^verbatim>\<open>None\<close> only
  when the read fails. Both expressions are evaluated in Python floats (\<open>Py_Float\<close>):
  every product and sum is rounded to a double before \<^verbatim>\<open>int()\<close> truncates it.
  The lemmas show that for a 32-bit landmark the scaling \<^verbatim>\<open>palm_y * HEIGHT\<close> is exact;
  that on coordinates in \<open>[0, 2^40]\<close> the update is the integer quotient
  \<open>(3 t + 17 s) div 20\<close> or, when \<open>20\<close> divides \<open>3 t + 17 s\<close>, possibly one less;
  what its fixed points are; that from above it settles at the target or one below it;
  and that iterating it stays within \<open>20 / 3\<close> below the spec's exponential average
  \<open>ema\<close>, which it never exceeds.
\<close>

text \<open>The literal \<^verbatim>\<open>0.15\<close> (line 66) denotes the double nearest to \<open>0.15\<close>.\<close>

definition alpha :: pyfloat where
  "alpha = PyFloat 5404319552844595 (- 55)"

definition target_y :: "hand \<Rightarrow> int" where
  "target_y hand = f_int (fmul (hand ! 9) (f_of_int HEIGHT))"

definition smooth_update :: "int \<Rightarrow> int \<Rightarrow> int" where
  "smooth_update t s =
     f_int (fadd (fmul alpha (f_of_int t)) (fmul (fsub (f_of_int 1) alpha) (f_of_int s)))"

definition detect_hand_control :: "capture \<Rightarrow> game \<Rightarrow> int option \<times> game" where
  "detect_hand_control c g =
     (case c of
        Read_failed \<Rightarrow> (None, g)
      | Captured res \<Rightarrow>
          (let g1 = detect_turbo_gesture res g;
               g2 = (case res of
                       None \<Rightarrow> g1
                     | Some hand \<Rightarrow>
                         g1\<lparr>smoothed_y := smooth_update (target_y hand) (smoothed_y g1)\<rparr>)
           in (Some (smoothed_y g2), g2)))"

text \<open>The spec's closed form of exponential smoothing (section 8), over the reals.\<close>

definition ema :: "int \<Rightarrow> int \<Rightarrow> nat \<Rightarrow> real" where
  "ema t s n = of_int t + (of_int s - of_int t) * (1 - 0.15) ^ n"

subsection \<open>The float constants\<close>

lemma alpha_nearest: "\<bar>fval alpha - 0.15\<bar> < 1 / 2 ^ 56 \<and> nbits (nat 5404319552844595) = 53"
  by (simp add: alpha_def)

lemma one_minus_alpha: "fsub (f_of_int 1) alpha = PyFloat 7656119366529843 (- 53)"
  by (simp add: alpha_def f_of_int_def fround_def round_shift_def)

subsection \<open>The update against exact arithmetic\<close>

text \<open>The rounding errors of the three operations, added up over \<open>[0, 2^40]\<close>.\<close>

lemma close_arith:
  fixes t s p q v :: real
  assumes t: "0 \<le> t" "t \<le> 2 ^ 40" and s: "0 \<le> s" "s \<le> 2 ^ 40"
    and p: "\<bar>p - 5404319552844595 / 2 ^ 55 * t\<bar> \<le> \<bar>5404319552844595 / 2 ^ 55 * t\<bar> / 2 ^ 53"
    and q: "\<bar>q - 7656119366529843 / 2 ^ 53 * s\<bar> \<le> \<bar>7656119366529843 / 2 ^ 53 * s\<bar> / 2 ^ 53"
    and v: "\<bar>v - (p + q)\<bar> \<le> \<bar>p + q\<bar> / 2 ^ 53"
  shows "0 \<le> v \<and> \<bar>v - (3 * t + 17 * s) / 20\<bar> < 1 / 20"
proof -
  have p1: "5404319552844595 * 9007199254740991 * t \<le> 324518553658426726783156020576256 * p"
   and p2: "324518553658426726783156020576256 * p \<le> 5404319552844595 * 9007199254740993 * t"
    using p t unfolding abs_le_iff by (simp_all add: abs_of_nonneg field_simps)
  have q1: "7656119366529843 * 9007199254740991 * s \<le> 81129638414606681695789005144064 * q"
   and q2: "81129638414606681695789005144064 * q \<le> 7656119366529843 * 9007199254740993 * s"
    using q s unfolding abs_le_iff by (simp_all add: abs_of_nonneg field_simps)
  have pq: "0 \<le> p + q" using p1 q1 t s by linarith
  have v1: "9007199254740991 * p + 9007199254740991 * q \<le> 9007199254740992 * v"
   and v2: "9007199254740992 * v \<le> 9007199254740993 * p + 9007199254740993 * q"
    using v pq unfolding abs_le_iff by (simp_all add: abs_of_nonneg field_simps)
  show ?thesis using p1 p2 q1 q2 v1 v2 t s unfolding abs_less_iff by (simp add: field_simps)
qed

lemma smooth_sum_close:
  assumes t: "0 \<le> t" "t \<le> 2 ^ 40" and s: "0 \<le> s" "s \<le> 2 ^ 40"
  defines "P \<equiv> fmul alpha (PyFloat t 0)"
      and "Q \<equiv> fmul (PyFloat 7656119366529843 (- 53)) (PyFloat s 0)"
  shows "smooth_update t s = py_int (fval (fadd P Q))
         \<and> 0 \<le> fval (fadd P Q)
         \<and> \<bar>fval (fadd P Q) - of_int (3 * t + 17 * s) / 20\<bar> < 1 / 20"
proof -
  have ti: "f_of_int t = PyFloat t 0" using t by (intro f_of_int_exact) simp
  have si: "f_of_int s = PyFloat s 0" using s by (intro f_of_int_exact) simp
  have su: "smooth_update t s = py_int (fval (fadd P Q))"
    by (simp add: smooth_update_def ti si one_minus_alpha P_def Q_def f_int_py_int)
  have eP: "\<bar>fval P - fval alpha * of_int t\<bar> \<le> \<bar>fval alpha * of_int t\<bar> / 2 ^ 53"
    unfolding P_def using fmul_err [of alpha "PyFloat t 0"] by (simp add: alpha_def)
  have eQ: "\<bar>fval Q - 7656119366529843 / 2 ^ 53 * of_int s\<bar>
            \<le> \<bar>7656119366529843 / 2 ^ 53 * of_int s\<bar> / 2 ^ 53"
    unfolding Q_def using fmul_err [of "PyFloat 7656119366529843 (- 53)" "PyFloat s 0"] by simp
  have xP: "- 55 \<le> expo P" unfolding P_def using fmul_expo [of alpha "PyFloat t 0"] by (simp add: alpha_def)
  have xQ: "- 53 \<le> expo Q" unfolding Q_def using fmul_expo [of "PyFloat 7656119366529843 (- 53)" "PyFloat s 0"] by simp
  have eV: "\<bar>fval (fadd P Q) - (fval P + fval Q)\<bar> \<le> \<bar>fval P + fval Q\<bar> / 2 ^ 53"
    using xP xQ by (intro fadd_err) simp
  have a: "fval alpha = 5404319552844595 / 2 ^ 55" by (simp add: alpha_def)
  have "0 \<le> fval (fadd P Q) \<and> \<bar>fval (fadd P Q) - (3 * of_int t + 17 * of_int s) / 20\<bar> < 1 / 20"
    using t s eV by (intro close_arith) (use eP eQ in \<open>simp_all add: a\<close>)
  then show ?thesis using su by simp
qed

lemma smooth_update_linear:
  assumes "0 \<le> t" "t \<le> 2 ^ 40" "0 \<le> s" "s \<le> 2 ^ 40"
  shows "0 \<le> smooth_update t s
         \<and> 20 * smooth_update t s \<le> 3 * t + 17 * s
         \<and> 3 * t + 17 * s \<le> 20 * smooth_update t s + 20"
proof -
  define P where "P = fmul alpha (PyFloat t 0)"
  define Q where "Q = fmul (PyFloat 7656119366529843 (- 53)) (PyFloat s 0)"
  define v where "v = fval (fadd P Q)"
  have c: "smooth_update t s = py_int v \<and> 0 \<le> v \<and> \<bar>v - of_int (3 * t + 17 * s) / 20\<bar> < 1 / 20"
    using smooth_sum_close [OF assms] by (simp add: P_def Q_def v_def)
  then have su: "smooth_update t s = \<lfloor>v\<rfloor>" by (simp add: py_int_floor)
  have f: "of_int \<lfloor>v\<rfloor> \<le> v" "v < of_int \<lfloor>v\<rfloor> + 1" by (simp_all add: of_int_floor_le)
  have c2: "20 * v < 3 * of_int t + 17 * of_int s + 1" "3 * of_int t + 17 * of_int s < 20 * v + 1"
    using c unfolding abs_less_iff by (simp_all add: field_simps)
  have "real_of_int (20 * \<lfloor>v\<rfloor>) < real_of_int (3 * t + 17 * s + 1)"
    using f c2 by simp linarith
  then have up: "20 * \<lfloor>v\<rfloor> \<le> 3 * t + 17 * s" by (simp only: of_int_less_iff)
  have "real_of_int (3 * t + 17 * s) < real_of_int (20 * \<lfloor>v\<rfloor> + 21)"
    using f c2 by simp linarith
  then have lo: "3 * t + 17 * s \<le> 20 * \<lfloor>v\<rfloor> + 20" by (simp only: of_int_less_iff)
  have "0 \<le> \<lfloor>v\<rfloor>" using c by simp
  then show ?thesis using up lo su by simp
qed

lemma smooth_update_range:
  "0 \<le> t \<Longrightarrow> t \<le> 2 ^ 40 \<Longrightarrow> 0 \<le> s \<Longrightarrow> s \<le> 2 ^ 40 \<Longrightarrow>
   0 \<le> smooth_update t s \<and> smooth_update t s \<le> 2 ^ 40"
  using smooth_update_linear [of t s] by simp

lemma smooth_update_exact:
  assumes "0 \<le> t" "t \<le> 2 ^ 40" "0 \<le> s" "s \<le> 2 ^ 40" "\<not> 20 dvd 3 * t + 17 * s"
  shows "smooth_update t s = (3 * t + 17 * s) div 20"
proof -
  have l: "20 * smooth_update t s \<le> 3 * t + 17 * s" "3 * t + 17 * s \<le> 20 * smooth_update t s + 20"
    using smooth_update_linear [OF assms(1-4)] by simp_all
  moreover have "3 * t + 17 * s \<noteq> 20 * smooth_update t s + 20"
    using assms(5) by (metis dvd_triv_left mult.commute mult_Suc_right distrib_left_numeral dvd_add_triv_right_iff)
  ultimately show ?thesis by (simp add: div_eq_iff_bounds)
qed

lemma smooth_update_13: "smooth_update 13 13 = 12"
  by (simp add: smooth_update_def alpha_def f_of_int_def fround_def round_shift_def trunc_div_def)

text \<open>
  C10. On coordinates in \<open>[0, 2^40]\<close> the float update
  \<^verbatim>\<open>int(0.15 * t + (1 - 0.15) * s)\<close> is the exact quotient \<open>(3 t + 17 s) div 20\<close>, except
  that when \<open>20\<close> divides \<open>3 t + 17 s\<close> the rounded sum may fall just below the integer
  and the update is one less.
\<close>

theorem smooth_update_float:
  assumes "0 \<le> t" "t \<le> 2 ^ 40" "0 \<le> s" "s \<le> 2 ^ 40"
  shows "smooth_update t s = (3 * t + 17 * s) div 20
         \<or> (20 dvd 3 * t + 17 * s \<and> smooth_update t s = (3 * t + 17 * s) div 20 - 1)"
proof -
  let ?u = "smooth_update t s" and ?n = "3 * t + 17 * s"
  have l: "20 * ?u \<le> ?n" "?n \<le> 20 * ?u + 20" using smooth_update_linear [OF assms] by simp_all
  show ?thesis
  proof (cases "?n = 20 * ?u + 20")
    case True
    then show ?thesis by simp
  next
    case False
    with l have "?n div 20 = ?u" by (simp add: div_eq_iff_bounds)
    then show ?thesis by simp
  qed
qed

theorem smooth_update_float_witness:
  "0 \<le> (13::int) \<and> (13::int) \<le> 2 ^ 40
   \<and> (smooth_update 13 13 = 260 div 20 \<or> (20 dvd (260::int) \<and> smooth_update 13 13 = 260 div 20 - 1))
   \<and> smooth_update 13 13 = 12"
  using smooth_update_float [of 13 13] by (simp add: smooth_update_13)

subsection \<open>Fixed points and settling\<close>

text \<open>
  C12. On coordinates in \<open>[0, 2^40]\<close> the smoothed value
  stops moving exactly on the band \<open>[t - 6, t - 1]\<close> below a steady target \<open>t\<close>, and at
  \<open>t\<close> itself only when the rounded sum \<open>0.15 t + 0.85 t\<close> does not fall below \<open>t\<close>: for
  \<open>t = 13\<close> it gives \<open>12.999999999999998\<close>, so the target is left again for \<open>12\<close>.
\<close>

theorem smooth_fixed_iff:
  assumes "0 \<le> t" "t \<le> 2 ^ 40" "0 \<le> s" "s \<le> 2 ^ 40"
  shows "smooth_update t s = s \<longleftrightarrow> t - 6 \<le> s \<and> s < t \<or> s = t \<and> smooth_update t t = t"
proof -
  have l: "20 * smooth_update t s \<le> 3 * t + 17 * s" "3 * t + 17 * s \<le> 20 * smooth_update t s + 20"
    using smooth_update_linear [OF assms] by simp_all
  show ?thesis
  proof
    assume "smooth_update t s = s"
    with l show "t - 6 \<le> s \<and> s < t \<or> s = t \<and> smooth_update t t = t" by auto
  next
    assume "t - 6 \<le> s \<and> s < t \<or> s = t \<and> smooth_update t t = t"
    with l show "smooth_update t s = s" by auto
  qed
qed

theorem smooth_fixed_iff_witness:
  "0 \<le> (13::int) \<and> (13::int) \<le> 2 ^ 40 \<and> 0 \<le> (12::int) \<and> (12::int) \<le> 2 ^ 40
   \<and> smooth_update 13 12 = 12 \<and> smooth_update 13 13 \<noteq> 13"
  using smooth_fixed_iff [of 13 12] by (simp add: smooth_update_13)

lemma smooth_update_from_above:
  "0 \<le> t \<Longrightarrow> t < s \<Longrightarrow> s \<le> 2 ^ 40 \<Longrightarrow> t \<le> smooth_update t s \<and> smooth_update t s < s"
  using smooth_update_linear [of t s] by auto

lemma smooth_update_at_target:
  "0 \<le> t \<Longrightarrow> t \<le> 2 ^ 40 \<Longrightarrow> smooth_update t t = t \<or> smooth_update t t = t - 1"
  using smooth_update_linear [of t t] by auto

lemma smooth_update_below_target:
  "1 \<le> t \<Longrightarrow> t \<le> 2 ^ 40 \<Longrightarrow> smooth_update t (t - 1) = t - 1"
  using smooth_update_linear [of t "t - 1"] by auto

lemma smooth_settled:
  assumes "0 \<le> t" "t \<le> 2 ^ 40" "x \<in> {t, smooth_update t t}"
  shows "smooth_update t x \<in> {t, smooth_update t t}"
proof (cases "x = t")
  case False
  with assms(3) have x: "x = smooth_update t t" by simp
  show ?thesis
  proof (cases "smooth_update t t = t")
    case False
    with smooth_update_at_target [OF assms(1,2)] have u: "smooth_update t t = t - 1" by simp
    have "0 \<le> smooth_update t t" using smooth_update_range [of t t] assms(1,2) by simp
    with u have "1 \<le> t" by simp
    with assms(2) u show ?thesis by (simp add: x smooth_update_below_target)
  qed (simp add: x)
qed simp

lemma smooth_settled_iter:
  "0 \<le> t \<Longrightarrow> t \<le> 2 ^ 40 \<Longrightarrow> x \<in> {t, smooth_update t t} \<Longrightarrow>
   (smooth_update t ^^ n) x \<in> {t, smooth_update t t}"
proof (induction n)
  case (Suc n)
  then show ?case using smooth_settled [of t "(smooth_update t ^^ n) x"] by simp
qed simp

lemma smooth_reaches_aux:
  "0 \<le> t \<Longrightarrow> t \<le> s \<Longrightarrow> s \<le> 2 ^ 40 \<Longrightarrow> s - t \<le> int k \<Longrightarrow>
   (smooth_update t ^^ k) s \<in> {t, smooth_update t t}"
proof (induction k arbitrary: s)
  case 0
  then show ?case by simp
next
  case (Suc k)
  show ?case
  proof (cases "t < s")
    case True
    with Suc.prems smooth_update_from_above [of t s]
    have "(smooth_update t ^^ k) (smooth_update t s) \<in> {t, smooth_update t t}"
      by (intro Suc.IH) auto
    then show ?thesis by (simp add: funpow_swap1)
  next
    case False
    with Suc.prems have "s = t" by simp
    then show ?thesis using Suc.prems smooth_settled_iter [of t s "Suc k"] by simp
  qed
qed

text \<open>
  C13. From above, a steady target \<open>t\<close> is reached within
  \<open>s - t\<close> frames from a smoothed value \<open>s \<ge> t\<close> (both in \<open>[0, 2^40]\<close>), and from then on
  the value is \<open>t\<close> or the value one step from \<open>t\<close>, that is \<open>t\<close> or \<open>t - 1\<close>: the float
  update can end one pixel short even from above.
\<close>

theorem smooth_reaches_target:
  assumes "0 \<le> t" "t \<le> s" "s \<le> 2 ^ 40" "s - t \<le> int n"
  shows "(smooth_update t ^^ n) s \<in> {t, smooth_update t t}"
  using assms by (rule smooth_reaches_aux)

theorem smooth_reaches_target_witness:
  "0 \<le> (13::int) \<and> (13::int) \<le> 20 \<and> (20::int) \<le> 2 ^ 40 \<and> 20 - 13 \<le> int 7
   \<and> (smooth_update 13 ^^ 7) 20 \<in> {13, smooth_update 13 13}
   \<and> (smooth_update 13 ^^ 7) 20 = 12"
proof -
  have "(smooth_update 13 ^^ 7) 20 = 12"
    by (simp add: numeral_eq_Suc smooth_update_exact smooth_update_13)
  then show ?thesis using smooth_reaches_target [of 13 20 7] by simp
qed

subsection \<open>Bounds against the exponential average\<close>

lemma smooth_update_real_bounds:
  assumes "0 \<le> t" "t \<le> 2 ^ 40" "0 \<le> s" "s \<le> 2 ^ 40"
  shows "(3 * of_int t + 17 * of_int s) / 20 - 1 \<le> (of_int (smooth_update t s) :: real)"
    and "of_int (smooth_update t s) \<le> (3 * of_int t + 17 * of_int s :: real) / 20"
proof -
  have l: "20 * smooth_update t s \<le> 3 * t + 17 * s" "3 * t + 17 * s \<le> 20 * smooth_update t s + 20"
    using smooth_update_linear [OF assms] by simp_all
  then have "real_of_int (20 * smooth_update t s) \<le> real_of_int (3 * t + 17 * s)"
    "real_of_int (3 * t + 17 * s) \<le> real_of_int (20 * smooth_update t s + 20)"
    by (simp_all only: of_int_le_iff)
  then show "(3 * of_int t + 17 * of_int s) / 20 - 1 \<le> (of_int (smooth_update t s) :: real)"
    and "of_int (smooth_update t s) \<le> (3 * of_int t + 17 * of_int s :: real) / 20"
    by (simp_all add: field_simps)
qed

lemma smooth_iter_range:
  "0 \<le> t \<Longrightarrow> t \<le> 2 ^ 40 \<Longrightarrow> 0 \<le> s \<Longrightarrow> s \<le> 2 ^ 40 \<Longrightarrow>
   0 \<le> (smooth_update t ^^ n) s \<and> (smooth_update t ^^ n) s \<le> 2 ^ 40"
proof (induction n)
  case (Suc n)
  then show ?case using smooth_update_range [of t "(smooth_update t ^^ n) s"] by simp
qed simp

lemma ema_0: "ema t s 0 = of_int s"
  by (simp add: ema_def)

lemma ema_Suc: "ema t s (Suc n) = (3 * of_int t + 17 * ema t s n) / 20"
  by (simp add: ema_def field_simps)

lemma ema_step_arith:
  "e - (1 - p) * 20 / 3 \<le> x \<Longrightarrow> (3 * t + 17 * x) / 20 - 1 \<le> y \<Longrightarrow>
   (3 * t + 17 * e) / 20 - (1 - 0.85 * p) * 20 / 3 \<le> (y :: real)"
  by (simp add: field_simps)

lemma smooth_iter_ema:
  assumes "0 \<le> t" "t \<le> 2 ^ 40" "0 \<le> s" "s \<le> 2 ^ 40"
  shows "ema t s n - (1 - 0.85 ^ n) * 20 / 3 \<le> of_int ((smooth_update t ^^ n) s)
         \<and> of_int ((smooth_update t ^^ n) s) \<le> ema t s n"
proof (induction n)
  case 0
  then show ?case by (simp add: ema_0)
next
  case (Suc n)
  let ?x = "(smooth_update t ^^ n) s"
  have x: "0 \<le> ?x" "?x \<le> 2 ^ 40" using smooth_iter_range [OF assms] by simp_all
  note b = smooth_update_real_bounds [OF assms(1,2) x]
  have "of_int (smooth_update t ?x) \<le> ema t s (Suc n)"
    using b(2) Suc.IH by (simp add: ema_Suc)
  moreover have "ema t s (Suc n) - (1 - 0.85 ^ Suc n) * 20 / 3 \<le> of_int (smooth_update t ?x)"
  proof -
    define p :: real where "p = 0.85 ^ n"
    have "(0.85 :: real) ^ Suc n = 0.85 * p" by (simp add: p_def)
    then show ?thesis
      using ema_step_arith b(1) Suc.IH unfolding p_def [symmetric] ema_Suc by auto
  qed
  ultimately show ?case by simp
qed

text \<open>
  C11. Holding a steady target \<open>t\<close> for \<open>n\<close> frames from a
  smoothed value \<open>s\<close> (both in \<open>[0, 2^40]\<close>), the code's smoothed value never exceeds
  the spec's closed form \<open>t + (s - t) 0.85^n\<close> and stays less than \<open>20/3\<close> pixels below
  it: the spec's exponential smoothing, up to the truncation and rounding of each step.
\<close>

theorem smooth_ema_bounds:
  assumes "0 \<le> t" "t \<le> 2 ^ 40" "0 \<le> s" "s \<le> 2 ^ 40"
  shows "ema t s n - 20 / 3 < of_int ((smooth_update t ^^ n) s)
         \<and> of_int ((smooth_update t ^^ n) s) \<le> ema t s n"
proof -
  define p :: real where "p = 0.85 ^ n"
  have "0 < p" by (simp add: p_def)
  then have "(1 - p) * 20 / 3 < 20 / 3" by (simp add: field_simps)
  then show ?thesis using smooth_iter_ema [OF assms, of n] unfolding p_def by linarith
qed

theorem smooth_ema_bounds_witness:
  "0 \<le> (0::int) \<and> (0::int) \<le> 2 ^ 40 \<and> 0 \<le> (350::int) \<and> (350::int) \<le> 2 ^ 40
   \<and> ema 0 350 2 - 20 / 3 < of_int ((smooth_update 0 ^^ 2) 350)
   \<and> of_int ((smooth_update 0 ^^ 2) 350) \<le> ema 0 350 2"
  using smooth_ema_bounds [of 0 350 2] by simp

subsection \<open>The palm scaling\<close>

text \<open>
  C18. For a palm coordinate that is a 32-bit float, as MediaPipe
  produces it (a mantissa below \<open>2^24\<close>, an exponent from \<open>-149\<close>), the double product
  \<^verbatim>\<open>palm_y * HEIGHT\<close> of line 130 is exact, so \<open>target_y\<close> is the truncation of the exact
  product with \<open>700\<close>.
\<close>

theorem target_y_float32:
  assumes "hand ! 9 = PyFloat m e" "\<bar>m\<bar> < 2 ^ 24" "- 149 \<le> e"
  shows "target_y hand = py_int (fval (hand ! 9) * of_int HEIGHT)"
proof -
  have h: "f_of_int 700 = PyFloat 700 0" by (simp add: f_of_int_exact)
  have "\<bar>m * 700\<bar> < 2 ^ 53" using assms(2) by (simp add: abs_mult)
  then have "nat \<bar>m * 700\<bar> < 2 ^ 53" by (simp add: nat_less_iff)
  then have "nbits (nat \<bar>m * 700\<bar>) \<le> 53" by (rule nbits_le)
  then have "fmul (PyFloat m e) (PyFloat 700 0) = PyFloat (m * 700) e"
    using assms(3) fmul_exact [of m 700 e 0] by simp
  then show ?thesis by (simp add: target_y_def h assms(1) f_int_py_int HEIGHT_def ac_simps)
qed

theorem target_y_float32_witness:
  "demo_hand fingers (PyFloat 1 (- 1)) ! 9 = PyFloat 1 (- 1) \<and> \<bar>1::int\<bar> < 2 ^ 24 \<and> - 149 \<le> (- 1::int)
   \<and> target_y (demo_hand fingers (PyFloat 1 (- 1))) = 350"
  using target_y_float32 [of "demo_hand fingers (PyFloat 1 (- 1))" 1 "- 1"] by (simp add: HEIGHT_def)

subsection \<open>The frame reader\<close>

lemma detect_hand_control_simps:
  "detect_hand_control Read_failed g = (None, g)"
  "detect_hand_control (Captured None) g = (Some (smoothed_y g), g)"
  "detect_hand_control (Captured (Some h)) g =
     (Some (smooth_update (target_y h) (smoothed_y g)),
      (detect_turbo_gesture (Some h) g)\<lparr>smoothed_y := smooth_update (target_y h) (smoothed_y g)\<rparr>)"
  by (simp_all add: detect_hand_control_def Let_def)

lemma detect_hand_control_fields [simp]:
  "bird_x (snd (detect_hand_control c g)) = bird_x g"
  "bird_y (snd (detect_hand_control c g)) = bird_y g"
  "velocity (snd (detect_hand_control c g)) = velocity g"
  "pipes (snd (detect_hand_control c g)) = pipes g"
  "score (snd (detect_hand_control c g)) = score g"
  "game_over (snd (detect_hand_control c g)) = game_over g"
  "gameover_sound_played (snd (detect_hand_control c g)) = gameover_sound_played g"
  by (simp_all add: detect_hand_control_def Let_def split: capture.split option.split)

text \<open>
  C14. Reading a frame changes the smoothed value only
  when a hand is in it, by one smoothing step toward the palm centre; a frame without a
  hand or a failed read leaves it frozen. What the reader returns is \<open>None\<close> only for a
  failed read: for every frame read it is the (possibly frozen) smoothed value.
\<close>

theorem detect_hand_control_smoothed:
  "detect_hand_control c g = (r, g') \<Longrightarrow>
     smoothed_y g' = (case c of Captured (Some h) \<Rightarrow> smooth_update (target_y h) (smoothed_y g)
                              | _ \<Rightarrow> smoothed_y g)
     \<and> r = (if c = Read_failed then None else Some (smoothed_y g'))"
  by (auto simp: detect_hand_control_def Let_def split: capture.splits option.splits)

theorem detect_hand_control_smoothed_witness:
  "detect_hand_control (Captured None) initial_globals = (Some 350, initial_globals)
   \<and> smoothed_y initial_globals = 350"
proof -
  have e: "detect_hand_control (Captured None) initial_globals = (Some 350, initial_globals)"
    by (simp add: detect_hand_control_simps initial_globals_def game_consts)
  show ?thesis using detect_hand_control_smoothed [OF e] e by simp
qed

end
