(* ===== verification/Flight.thy ===== *)
theory Flight
  imports Smoother
begin

text \<open>
  Flight Dynamics: the block \<^verbatim>\<open>if not game_over: ...\<close> of the main loop (lines
  183--194). The frame is read by \<open>detect_hand_control\<close>; when its result is truthy
  (\<^verbatim>\<open>if hand_y:\<close>, false for \<^verbatim>\<open>None\<close> and for \<open>0\<close>) the velocity is overwritten by
  the proportional law \<open>(hand_y - bird_y) * gain\<close>, with gain \<open>0.26\<close> in turbo mode and
  \<open>0.08\<close> otherwise; gravity is then added and the bird moves by the velocity. Python
  floats are modelled as reals. While the game is over the block is skipped and no frame
  is read.
\<close>

definition control_gain :: "bool \<Rightarrow> real" where
  "control_gain turbo = (if turbo then 0.26 else 0.08)"

definition flight_step :: "int option \<Rightarrow> game \<Rightarrow> game" where
  "flight_step hand_y g =
     (let v = (case hand_y of
                 Some y \<Rightarrow> (if y \<noteq> 0 then (of_int y - bird_y g) * control_gain (turbo_mode g)
                            else velocity g)
               | None \<Rightarrow> velocity g);
          v' = v + gravity
      in g\<lparr>velocity := v', bird_y := bird_y g + v'\<rparr>)"

definition control_phase :: "capture \<Rightarrow> game \<Rightarrow> game" where
  "control_phase c g =
     (if game_over g then g
      else (case detect_hand_control c g of (hand_y, g1) \<Rightarrow> flight_step hand_y g1))"

lemma flight_step_fields [simp]:
  "bird_x (flight_step hy g) = bird_x g" "pipes (flight_step hy g) = pipes g"
  "score (flight_step hy g) = score g" "game_over (flight_step hy g) = game_over g"
  "turbo_mode (flight_step hy g) = turbo_mode g"
  "smoothed_y (flight_step hy g) = smoothed_y g" "audio (flight_step hy g) = audio g"
  "turbo_sound_played (flight_step hy g) = turbo_sound_played g"
  "gameover_sound_played (flight_step hy g) = gameover_sound_played g"
  by (simp_all add: flight_step_def Let_def)

lemma flight_step_free_fall:
  "hand_y = None \<or> hand_y = Some 0 \<Longrightarrow>
     velocity (flight_step hand_y g) = velocity g + gravity
     \<and> bird_y (flight_step hand_y g) = bird_y g + velocity g + gravity"
  by (auto simp: flight_step_def Let_def)

lemma flight_step_steer:
  "y \<noteq> 0 \<Longrightarrow>
     velocity (flight_step (Some y) g) = (of_int y - bird_y g) * control_gain (turbo_mode g) + gravity
     \<and> bird_y (flight_step (Some y) g) = bird_y g + velocity (flight_step (Some y) g)"
  by (simp add: flight_step_def Let_def)

lemma control_phase_alt:
  "control_phase c g =
     (if game_over g then g
      else flight_step (fst (detect_hand_control c g)) (snd (detect_hand_control c g)))"
  by (simp add: control_phase_def split: prod.split)

lemma control_phase_over [simp]: "game_over g \<Longrightarrow> control_phase c g = g"
  by (simp add: control_phase_def)

lemma control_phase_fields [simp]:
  "bird_x (control_phase c g) = bird_x g" "pipes (control_phase c g) = pipes g"
  "score (control_phase c g) = score g" "game_over (control_phase c g) = game_over g"
  "gameover_sound_played (control_phase c g) = gameover_sound_played g"
  by (simp_all add: control_phase_alt)

text \<open>
  C16. When no frame can be read the bird is a falling
  projectile: velocity grows by exactly the gravity constant, the bird moves by the new
  velocity, and the smoothed value and the mode are untouched.
\<close>

theorem control_phase_read_failed:
  assumes "\<not> game_over g"
  shows "velocity (control_phase Read_failed g) = velocity g + gravity
         \<and> bird_y (control_phase Read_failed g) = bird_y g + velocity g + gravity
         \<and> smoothed_y (control_phase Read_failed g) = smoothed_y g
         \<and> turbo_mode (control_phase Read_failed g) = turbo_mode g"
  using assms by (simp add: control_phase_def detect_hand_control_simps flight_step_free_fall)

theorem control_phase_read_failed_witness:
  "\<not> game_over initial_globals \<and> velocity (control_phase Read_failed initial_globals) = 0.5"
  using control_phase_read_failed [of initial_globals]
  by (simp add: initial_globals_def game_consts)

text \<open>
  C17. A frame read without a hand does not make the bird fall
  freely: the smoothed value is frozen but still returned, so the velocity is overwritten
  by the proportional law toward that stale value, at the gain of the mode kept from the
  last frame with a hand.
\<close>

theorem control_phase_no_hand:
  assumes "\<not> game_over g" "smoothed_y g \<noteq> 0"
  shows "velocity (control_phase (Captured None) g)
           = (of_int (smoothed_y g) - bird_y g) * control_gain (turbo_mode g) + gravity
         \<and> smoothed_y (control_phase (Captured None) g) = smoothed_y g
         \<and> turbo_mode (control_phase (Captured None) g) = turbo_mode g"
  using assms by (simp add: control_phase_def detect_hand_control_simps flight_step_steer)

theorem control_phase_no_hand_witness:
  "\<not> game_over (initial_globals\<lparr>velocity := 3\<rparr>) \<and> smoothed_y (initial_globals\<lparr>velocity := 3\<rparr>) \<noteq> 0
   \<and> velocity (control_phase (Captured None) (initial_globals\<lparr>velocity := 3\<rparr>)) = 0.5"
  using control_phase_no_hand [of "initial_globals\<lparr>velocity := 3\<rparr>"]
  by (simp add: initial_globals_def game_consts)

text \<open>
  C15. With a hand in the frame, the new velocity is the
  proportional law toward the freshly smoothed palm position plus gravity, with the gain
  chosen by this frame's gesture (0.26 for two fingers, 0.08 otherwise), unless the
  smoothed value is 0, which \<^verbatim>\<open>if hand_y:\<close> reads as no hand: then the bird falls
  freely.
\<close>

theorem control_phase_hand:
  assumes "\<not> game_over g"
  shows "velocity (control_phase (Captured (Some h)) g)
           = (let s = smooth_update (target_y h) (smoothed_y g) in
              if s = 0 then velocity g + gravity
              else (of_int s - bird_y g) * control_gain (fingers_up h = 2) + gravity)"
  using assms
  by (auto simp: control_phase_def detect_hand_control_simps flight_step_def Let_def
                 detect_turbo_gesture_Some)

theorem control_phase_hand_witness:
  "\<not> game_over initial_globals
   \<and> velocity (control_phase (Captured (Some (demo_hand [8, 12] (PyFloat 1 (- 2))))) initial_globals)
     = -6.52"
proof -
  have t: "target_y (demo_hand [8, 12] (PyFloat 1 (- 2))) = 175"
    by (simp add: target_y_def HEIGHT_def f_of_int_def fround_def trunc_div_def)
  have s: "smooth_update 175 350 = 323" by (simp add: smooth_update_exact)
  have f: "fingers_up (demo_hand [8, 12] (PyFloat 1 (- 2))) = 2"
    by (simp add: fingers_up_demo_hand fingers_def)
  show ?thesis
    using control_phase_hand [of initial_globals "demo_hand [8, 12] (PyFloat 1 (- 2))"] t f
    by (simp add: initial_globals_def game_consts s control_gain_def)
qed

subsection \<open>Hovering under a steady control value\<close>

lemma flight_step_Some_bird_y:
  "t \<noteq> 0 \<Longrightarrow> bird_y (flight_step (Some t) h)
     = (1 - control_gain (turbo_mode h)) * bird_y h + control_gain (turbo_mode h) * of_int t + gravity"
  by (simp add: flight_step_def Let_def algebra_simps)

lemma funpow_flight_step_turbo: "turbo_mode ((flight_step hy ^^ n) g) = turbo_mode g"
  by (induction n) simp_all

text \<open>
  C31. With a steady control value \<open>t\<close> (the smoothed palm position, not 0) the bird
  converges geometrically, at rate \<open>1 - gain\<close> per frame, to \<open>t + gravity / gain\<close>:
  because gravity is added after the proportional law, it hovers 6.25 pixels below the
  target in normal mode and \<open>0.5 / 0.26\<close> pixels below it in turbo mode, never at it.
\<close>

theorem flight_hover_converges:
  assumes "t \<noteq> 0"
  shows "bird_y ((flight_step (Some t) ^^ n) g)
           = (of_int t + gravity / control_gain (turbo_mode g))
             + (1 - control_gain (turbo_mode g)) ^ n
               * (bird_y g - (of_int t + gravity / control_gain (turbo_mode g)))"
proof (induction n)
  case 0
  then show ?case by simp
next
  case (Suc n)
  let ?k = "control_gain (turbo_mode g)"
  let ?y = "of_int t + gravity / ?k"
  let ?h = "(flight_step (Some t) ^^ n) g"
  have k: "?k \<noteq> 0" by (simp add: control_gain_def)
  have "bird_y ((flight_step (Some t) ^^ Suc n) g) = (1 - ?k) * bird_y ?h + ?k * of_int t + gravity"
    using flight_step_Some_bird_y [OF assms, of ?h] by (simp add: funpow_flight_step_turbo)
  also have "\<dots> = (1 - ?k) * (?y + (1 - ?k) ^ n * (bird_y g - ?y)) + ?k * of_int t + gravity"
    by (simp only: Suc.IH)
  also have "\<dots> = ?y + (1 - ?k) ^ Suc n * (bird_y g - ?y)"
    using k by (simp add: field_simps)
  finally show ?case .
qed

theorem flight_hover_converges_witness:
  "(300::int) \<noteq> 0 \<and> bird_y ((flight_step (Some 300) ^^ 2) initial_globals)
      = (300 + 6.25) + 0.92 ^ 2 * (350 - (300 + 6.25))"
  using flight_hover_converges [of 300 2 initial_globals]
  by (simp add: initial_globals_def control_gain_def game_consts)

end
