(* ===== verification/Pipes.thy ===== *)
theory Pipes
  imports Game_State
begin

text \<open>
  Obstacle Pipeline and collision: \<^verbatim>\<open>spawn_pipe()\<close> (lines 69--71) and the pipe part
  of the main loop (lines 200--231). Each frame, \<^verbatim>\<open>for pipe in pipes:\<close> moves every
  pipe left by the speed of the current mode, scores it once the bird's \<open>x\<close> is past its
  right edge, and checks it against the bird; a hit clears the list being iterated, which
  ends the loop (\<open>crash\<close>). Then the pipes with \<open>x \<le> -70\<close> are dropped
  (\<open>prune_pipes\<close>) and a new pipe is spawned at the right edge when the list is empty
  or the last pipe is left of \<open>WIDTH - 250\<close>, unless the game is over
  (\<open>spawn_check\<close>). The random gap position \<^verbatim>\<open>random.randint(150, 400)\<close> is an input
  of \<open>spawn_pipe\<close>.
  The lemmas give the loop's effect in closed form (with and without a hit), the scoring
  discipline (one point and one score sound per pipe, never twice) and the positions
  after a frame.
\<close>

definition spawn_pipe :: "int \<Rightarrow> game \<Rightarrow> game" where
  "spawn_pipe height g =
     g\<lparr>pipes := pipes g @ [\<lparr>pipe_x = WIDTH, pipe_h = height, scored = False\<rparr>]\<rparr>"

definition pipe_speed :: "bool \<Rightarrow> int" where
  "pipe_speed turbo = (if turbo then turbo_pipe_speed else normal_pipe_speed)"

text \<open>\<^verbatim>\<open>if not pipe[2] and bird_x > pipe[0] + 70:\<close> one point, flag set, sound.\<close>

definition score_pipe :: "pipe \<Rightarrow> game \<Rightarrow> pipe \<times> game" where
  "score_pipe p g =
     (if \<not> scored p \<and> bird_x g > pipe_x p + 70
      then (p\<lparr>scored := True\<rparr>, play Score_sound (g\<lparr>score := score g + 1\<rparr>))
      else (p, g))"

text \<open>The bird (40 wide) overlaps the pipe (70 wide) and is outside the gap.\<close>

definition hits :: "int \<Rightarrow> real \<Rightarrow> pipe \<Rightarrow> bool" where
  "hits bx by p =
     (bx + 40 > pipe_x p \<and> bx < pipe_x p + 70
      \<and> (by < of_int (pipe_h p) \<or> by > of_int (pipe_h p + pipe_gap)))"

definition crash :: "game \<Rightarrow> game" where
  "crash g =
     (let g1 = g\<lparr>game_over := True, pipes := [], bird_y := of_int (HEIGHT div 2), bird_x := 10\<rparr>
      in if \<not> gameover_sound_played g1
         then (play Gameover_sound g1)\<lparr>gameover_sound_played := True\<rparr>
         else g1)"

text \<open>
  The \<^verbatim>\<open>for\<close> loop: \<open>done\<close> holds the pipes already moved, in order; a hit ends the
  iteration with the list cleared.
\<close>

fun pipe_loop :: "pipe list \<Rightarrow> pipe list \<Rightarrow> game \<Rightarrow> game" where
  "pipe_loop done [] g = g\<lparr>pipes := done\<rparr>"
| "pipe_loop done (p # ps) g =
     (let p1 = p\<lparr>pipe_x := pipe_x p - pipe_speed (turbo_mode g)\<rparr>
      in case score_pipe p1 g of
           (p2, g1) \<Rightarrow>
             if hits (bird_x g1) (bird_y g1) p2 then crash g1
             else pipe_loop (done @ [p2]) ps g1)"

definition prune_pipes :: "game \<Rightarrow> game" where
  "prune_pipes g = g\<lparr>pipes := filter (\<lambda>p. pipe_x p > -70) (pipes g)\<rparr>"

definition advance_pipes :: "game \<Rightarrow> game" where
  "advance_pipes g = prune_pipes (pipe_loop [] (pipes g) g)"

definition spawn_check :: "int \<Rightarrow> game \<Rightarrow> game" where
  "spawn_check height g =
     (if pipes g = [] \<or> pipe_x (last (pipes g)) < WIDTH - 250
      then (if \<not> game_over g then spawn_pipe height g else g)
      else g)"

text \<open>
  One pipe after a frame without a hit: moved by \<open>d\<close> and scored if the bird at \<open>bx\<close>
  is past it. A specification of the loop body, used to state the loop's effect.
\<close>

definition step_pipe :: "int \<Rightarrow> int \<Rightarrow> pipe \<Rightarrow> pipe" where
  "step_pipe bx d p =
     \<lparr>pipe_x = pipe_x p - d, pipe_h = pipe_h p,
      scored = (scored p \<or> bx > pipe_x p - d + 70)\<rparr>"

definition newly_scored :: "int \<Rightarrow> int \<Rightarrow> pipe \<Rightarrow> bool" where
  "newly_scored bx d p = (\<not> scored p \<and> bx > pipe_x p - d + 70)"

lemma spawn_pipe_fields [simp]:
  "pipes (spawn_pipe h g) = pipes g @ [\<lparr>pipe_x = WIDTH, pipe_h = h, scored = False\<rparr>]"
  "bird_x (spawn_pipe h g) = bird_x g" "bird_y (spawn_pipe h g) = bird_y g"
  "score (spawn_pipe h g) = score g" "game_over (spawn_pipe h g) = game_over g"
  "audio (spawn_pipe h g) = audio g" "turbo_mode (spawn_pipe h g) = turbo_mode g"
  "gameover_sound_played (spawn_pipe h g) = gameover_sound_played g"
  "velocity (spawn_pipe h g) = velocity g" "smoothed_y (spawn_pipe h g) = smoothed_y g"
  "turbo_sound_played (spawn_pipe h g) = turbo_sound_played g"
  by (simp_all add: spawn_pipe_def)

lemma crash_fields [simp]:
  "pipes (crash g) = []" "game_over (crash g)" "bird_x (crash g) = 10"
  "bird_y (crash g) = of_int (HEIGHT div 2)" "score (crash g) = score g"
  "velocity (crash g) = velocity g" "turbo_mode (crash g) = turbo_mode g"
  "smoothed_y (crash g) = smoothed_y g" "gameover_sound_played (crash g)"
  "audio (crash g) = audio g @ (if gameover_sound_played g then [] else [Gameover_sound])"
  by (simp_all add: crash_def Let_def)

lemma prune_pipes_fields [simp]:
  "pipes (prune_pipes g) = filter (\<lambda>p. pipe_x p > -70) (pipes g)"
  "bird_x (prune_pipes g) = bird_x g" "bird_y (prune_pipes g) = bird_y g"
  "score (prune_pipes g) = score g" "game_over (prune_pipes g) = game_over g"
  "audio (prune_pipes g) = audio g" "turbo_mode (prune_pipes g) = turbo_mode g"
  "gameover_sound_played (prune_pipes g) = gameover_sound_played g"
  by (simp_all add: prune_pipes_def)

lemma score_pipe_no_hit_step:
  "score_pipe (p\<lparr>pipe_x := pipe_x p - d\<rparr>) g =
     (step_pipe (bird_x g) d p,
      if newly_scored (bird_x g) d p then play Score_sound (g\<lparr>score := score g + 1\<rparr>) else g)"
  by (cases p) (auto simp: score_pipe_def step_pipe_def newly_scored_def)

lemma pipe_speed_pos: "0 < pipe_speed t"
  by (simp add: pipe_speed_def game_consts)

lemma map_pipe_x_step_pipe:
  "map pipe_x (map (step_pipe bx d) ps) = map (\<lambda>x. x - d) (map pipe_x ps)"
  by (simp add: step_pipe_def)

text \<open>
  A relation between games that is reflexive and transitive, and that the scoring step,
  the collision branch and the final list update respect, holds between the state before
  the loop and the state after it: the shared induction of the loop's frame lemmas.
\<close>

lemma pipe_loop_rel:
  assumes refl: "\<And>g. R g g"
    and trans: "\<And>a b c. R a b \<Longrightarrow> R b c \<Longrightarrow> R a c"
    and score: "\<And>p g. R g (snd (score_pipe p g))"
    and crash: "\<And>g. R g (crash g)"
    and set_pipes: "\<And>g ps. R g (g\<lparr>pipes := ps\<rparr>)"
  shows "R g (pipe_loop d ps g)"
proof (induction ps arbitrary: d g)
  case Nil
  then show ?case by (simp add: set_pipes)
next
  case (Cons p ps)
  obtain p2 g1 where sp:
    "score_pipe (p\<lparr>pipe_x := pipe_x p - pipe_speed (turbo_mode g)\<rparr>) g = (p2, g1)"
    by (cases "score_pipe (p\<lparr>pipe_x := pipe_x p - pipe_speed (turbo_mode g)\<rparr>) g")
  have g1: "R g g1"
    using score [of g "p\<lparr>pipe_x := pipe_x p - pipe_speed (turbo_mode g)\<rparr>"] sp by simp
  have "R g1 (pipe_loop (d @ [p2]) ps g1)" by (rule Cons.IH)
  with g1 have "R g (pipe_loop (d @ [p2]) ps g1)" by (rule trans)
  moreover have "R g (crash g1)" using g1 crash by (rule trans)
  ultimately show ?case using sp by (simp add: Let_def)
qed

lemma pipe_loop_score_mono: "score g \<le> score (pipe_loop d ps g)"
  by (rule pipe_loop_rel [where R = "\<lambda>a b. score a \<le> score b"])
     (auto simp: score_pipe_def)

lemma pipe_loop_bird_x: "bird_x (pipe_loop d ps g) = bird_x g \<or> bird_x (pipe_loop d ps g) = 10"
  by (rule pipe_loop_rel [where R = "\<lambda>a b. bird_x b = bird_x a \<or> bird_x b = 10"])
     (auto simp: score_pipe_def)

lemma pipe_loop_game_over: "game_over g \<Longrightarrow> game_over (pipe_loop d ps g)"
  by (rule pipe_loop_rel [where R = "\<lambda>a b. game_over a \<longrightarrow> game_over b", rule_format])
     (auto simp: score_pipe_def)

subsection \<open>The loop in closed form\<close>

lemma pipe_loop_no_hit:
  assumes "\<forall>p \<in> set ps. \<not> hits (bird_x g) (bird_y g) (step_pipe (bird_x g) (pipe_speed (turbo_mode g)) p)"
  shows "pipe_loop d ps g =
    g\<lparr>pipes := d @ map (step_pipe (bird_x g) (pipe_speed (turbo_mode g))) ps,
      score := score g + int (length (filter (newly_scored (bird_x g) (pipe_speed (turbo_mode g))) ps)),
      audio := audio g @ replicate (length (filter (newly_scored (bird_x g) (pipe_speed (turbo_mode g))) ps))
                           Score_sound\<rparr>"
  using assms
proof (induction ps arbitrary: d g)
  case Nil
  then show ?case by simp
next
  case (Cons p ps)
  let ?sp = "pipe_speed (turbo_mode g)"
  show ?case
  proof (cases "newly_scored (bird_x g) ?sp p")
    case True
    with Cons show ?thesis by (simp add: score_pipe_no_hit_step play_def)
  next
    case False
    with Cons show ?thesis by (simp add: score_pipe_no_hit_step)
  qed
qed

lemma pipe_loop_hit:
  assumes "\<exists>p \<in> set ps. hits (bird_x g) (bird_y g) (step_pipe (bird_x g) (pipe_speed (turbo_mode g)) p)"
  shows "pipes (pipe_loop d ps g) = [] \<and> game_over (pipe_loop d ps g)
         \<and> bird_x (pipe_loop d ps g) = 10 \<and> bird_y (pipe_loop d ps g) = of_int (HEIGHT div 2)"
  using assms
proof (induction ps arbitrary: d g)
  case Nil
  then show ?case by simp
next
  case (Cons p ps)
  let ?sp = "pipe_speed (turbo_mode g)"
  show ?case
  proof (cases "hits (bird_x g) (bird_y g) (step_pipe (bird_x g) ?sp p)")
    case True
    then show ?thesis by (simp add: score_pipe_no_hit_step Let_def)
  next
    case False
    with Cons.prems have "\<exists>q \<in> set ps. hits (bird_x g) (bird_y g) (step_pipe (bird_x g) ?sp q)"
      by simp
    with False Cons.IH show ?thesis by (simp add: score_pipe_no_hit_step Let_def)
  qed
qed

lemma pipe_loop_pipes:
  "pipes (pipe_loop d ps g) = []
   \<or> pipes (pipe_loop d ps g) = d @ map (step_pipe (bird_x g) (pipe_speed (turbo_mode g))) ps"
proof (cases "\<exists>p \<in> set ps. hits (bird_x g) (bird_y g) (step_pipe (bird_x g) (pipe_speed (turbo_mode g)) p)")
  case True
  then show ?thesis using pipe_loop_hit by blast
next
  case False
  then show ?thesis using pipe_loop_no_hit [of ps g d] by auto
qed

subsection \<open>The pipe stage of a frame\<close>

text \<open>
  C5. In a frame where no pipe reaches the bird, every pipe
  moves left by 10 in turbo mode and by 5 otherwise (turbo exactly doubles the scroll
  speed, for all pipes alike), the ones at \<open>x \<le> -70\<close> are dropped, order is kept, the
  score grows by the number of pipes the bird has just passed, and the phase is unchanged.
\<close>

theorem advance_pipes_positions:
  assumes "\<forall>p \<in> set (pipes g). \<not> hits (bird_x g) (bird_y g) (step_pipe (bird_x g) (pipe_speed (turbo_mode g)) p)"
  shows "map pipe_x (pipes (advance_pipes g))
           = filter (\<lambda>x. -70 < x) (map (\<lambda>p. pipe_x p - (if turbo_mode g then 10 else 5)) (pipes g))
         \<and> score (advance_pipes g)
           = score g + int (length (filter (newly_scored (bird_x g) (pipe_speed (turbo_mode g))) (pipes g)))
         \<and> game_over (advance_pipes g) = game_over g"
  using pipe_loop_no_hit [OF assms, of "[]"]
  by (simp add: advance_pipes_def filter_map comp_def step_pipe_def pipe_speed_def game_consts)

theorem advance_pipes_positions_witness:
  "map pipe_x (pipes (advance_pipes
        (initial_globals\<lparr>turbo_mode := True, pipes := [\<lparr>pipe_x = 300, pipe_h = 300, scored = False\<rparr>]\<rparr>)))
     = [290]"
  using advance_pipes_positions
          [of "initial_globals\<lparr>turbo_mode := True, pipes := [\<lparr>pipe_x = 300, pipe_h = 300, scored = False\<rparr>]\<rparr>"]
  by (simp add: initial_globals_def hits_def step_pipe_def pipe_speed_def game_consts)

text \<open>
  C6. In a frame where a moved pipe reaches the bird outside its
  gap, the pipe stage ends in the collision branch: no pipes left, game over, the bird put
  back at mid-height and at \<open>x = 10\<close>, the game-over sound marked as played.
\<close>

theorem advance_pipes_hit:
  assumes "\<exists>p \<in> set (pipes g). hits (bird_x g) (bird_y g) (step_pipe (bird_x g) (pipe_speed (turbo_mode g)) p)"
  shows "pipes (advance_pipes g) = [] \<and> game_over (advance_pipes g)
         \<and> bird_x (advance_pipes g) = 10 \<and> bird_y (advance_pipes g) = of_int (HEIGHT div 2)"
  using pipe_loop_hit [OF assms, of "[]"] by (simp add: advance_pipes_def)

theorem advance_pipes_hit_witness:
  "(\<exists>p \<in> set [\<lparr>pipe_x = 105, pipe_h = 150, scored = False\<rparr>].
      hits 100 500 (step_pipe 100 (pipe_speed False) p))
   \<and> game_over (advance_pipes
        (initial_globals\<lparr>bird_y := 500, pipes := [\<lparr>pipe_x = 105, pipe_h = 150, scored = False\<rparr>]\<rparr>))"
  using advance_pipes_hit
          [of "initial_globals\<lparr>bird_y := 500, pipes := [\<lparr>pipe_x = 105, pipe_h = 150, scored = False\<rparr>]\<rparr>"]
  by (simp add: initial_globals_def hits_def step_pipe_def pipe_speed_def game_consts)

subsection \<open>Scoring\<close>

text \<open>
  C8. Score and score sound go together: over a frame's loop,
  with or without a hit, the score grows by exactly the number of score sounds played,
  so the audio collaborator hears one sound per point.
\<close>

theorem pipe_loop_score_sounds:
  "score (pipe_loop d ps g) - int (plays Score_sound (audio (pipe_loop d ps g)))
     = score g - int (plays Score_sound (audio g))"
proof (induction ps arbitrary: d g)
  case Nil
  then show ?case by simp
next
  case (Cons p ps)
  then show ?case
    by (simp add: score_pipe_no_hit_step Let_def play_def)
qed

text \<open>
  C7. Scoring is idempotent: pipes already scored never add
  to the score nor play the score sound again, in any later frame.
\<close>

theorem pipe_loop_scored_idem:
  "\<forall>p \<in> set ps. scored p \<Longrightarrow>
     score (pipe_loop d ps g) = score g
     \<and> plays Score_sound (audio (pipe_loop d ps g)) = plays Score_sound (audio g)"
proof (induction ps arbitrary: d g)
  case Nil
  then show ?case by simp
next
  case (Cons p ps)
  then show ?case by (simp add: score_pipe_no_hit_step newly_scored_def Let_def)
qed

theorem pipe_loop_scored_idem_witness:
  "score (pipe_loop [] [\<lparr>pipe_x = 20, pipe_h = 300, scored = True\<rparr>] initial_globals)
       = score initial_globals"
  using pipe_loop_scored_idem [of "[\<lparr>pipe_x = 20, pipe_h = 300, scored = True\<rparr>]" "[]" initial_globals]
  by simp

text \<open>
  C9. No pipe leaves the screen unscored: with the bird
  right of the origin, every pipe that the frame's prune drops (\<open>x \<le> -70\<close>) has been
  scored by the loop of that same frame.
\<close>

theorem advance_pipes_drops_scored:
  assumes "0 < bird_x g"
  shows "\<forall>p \<in> set (pipes (pipe_loop [] (pipes g) g)).
           p \<notin> set (pipes (advance_pipes g)) \<longrightarrow> scored p"
proof -
  let ?f = "step_pipe (bird_x g) (pipe_speed (turbo_mode g))"
  have "\<forall>p \<in> set (map ?f (pipes g)). pipe_x p \<le> -70 \<longrightarrow> scored p"
    using assms by (auto simp: step_pipe_def)
  then show ?thesis
    using pipe_loop_pipes [of "[]" "pipes g" g]
    by (auto simp: advance_pipes_def)
qed

theorem advance_pipes_drops_scored_witness:
  "0 < bird_x (initial_globals\<lparr>pipes := [\<lparr>pipe_x = -65, pipe_h = 300, scored = False\<rparr>]\<rparr>)
   \<and> pipes (pipe_loop [] [\<lparr>pipe_x = -65, pipe_h = 300, scored = False\<rparr>]
        (initial_globals\<lparr>pipes := [\<lparr>pipe_x = -65, pipe_h = 300, scored = False\<rparr>]\<rparr>))
       = [\<lparr>pipe_x = -70, pipe_h = 300, scored = True\<rparr>]
   \<and> pipes (advance_pipes (initial_globals\<lparr>pipes := [\<lparr>pipe_x = -65, pipe_h = 300, scored = False\<rparr>]\<rparr>)) = []"
proof -
  let ?g = "initial_globals\<lparr>pipes := [\<lparr>pipe_x = -65, pipe_h = 300, scored = False\<rparr>]\<rparr>"
  have b: "0 < bird_x ?g" by (simp add: initial_globals_def)
  have l: "pipes (pipe_loop [] (pipes ?g) ?g) = [\<lparr>pipe_x = -70, pipe_h = 300, scored = True\<rparr>]"
    by (simp add: initial_globals_def score_pipe_def hits_def pipe_speed_def game_consts Let_def play_def)
  have a: "pipes (advance_pipes ?g) = []"
    using l by (simp add: advance_pipes_def)
  have "scored \<lparr>pipe_x = -70, pipe_h = 300, scored = True\<rparr>"
    using advance_pipes_drops_scored [OF b] l a by simp
  then show ?thesis using b l a by simp
qed

subsection \<open>The collision sound\<close>

lemma pipe_loop_gameover_sound:
  "gameover_sound_played g \<Longrightarrow>
     gameover_sound_played (pipe_loop d ps g)
     \<and> plays Gameover_sound (audio (pipe_loop d ps g)) = plays Gameover_sound (audio g)"
  by (rule pipe_loop_rel [where R = "\<lambda>a b. gameover_sound_played a \<longrightarrow>
          gameover_sound_played b \<and> plays Gameover_sound (audio b) = plays Gameover_sound (audio a)",
          rule_format])
     (auto simp: score_pipe_def play_def)

text \<open>
  C29. The collision branch's game-over sound is one-shot: once it has been played (and
  until \<^verbatim>\<open>detect_restart\<close> re-arms it), a pipe stage plays no further game-over
  sound, even when another collision happens.
\<close>

theorem advance_pipes_gameover_once:
  "gameover_sound_played g \<Longrightarrow>
     gameover_sound_played (advance_pipes g)
     \<and> plays Gameover_sound (audio (advance_pipes g)) = plays Gameover_sound (audio g)"
  using pipe_loop_gameover_sound [of g "[]" "pipes g"] by (simp add: advance_pipes_def)


theorem advance_pipes_gameover_once_witness:
  "gameover_sound_played (initial_globals\<lparr>gameover_sound_played := True, bird_y := 500,
                          pipes := [\<lparr>pipe_x = 105, pipe_h = 150, scored = False\<rparr>]\<rparr>)
   \<and> game_over (advance_pipes (initial_globals\<lparr>gameover_sound_played := True, bird_y := 500,
                          pipes := [\<lparr>pipe_x = 105, pipe_h = 150, scored = False\<rparr>]\<rparr>))
   \<and> plays Gameover_sound (audio (advance_pipes (initial_globals\<lparr>gameover_sound_played := True,
        bird_y := 500, pipes := [\<lparr>pipe_x = 105, pipe_h = 150, scored = False\<rparr>]\<rparr>))) = 0"
proof -
  let ?g = "initial_globals\<lparr>gameover_sound_played := True, bird_y := 500,
                          pipes := [\<lparr>pipe_x = 105, pipe_h = 150, scored = False\<rparr>]\<rparr>"
  have p: "gameover_sound_played ?g" by simp
  have o: "game_over (advance_pipes ?g)"
    by (simp add: initial_globals_def advance_pipes_def score_pipe_def hits_def pipe_speed_def
                  game_consts Let_def crash_def)
  show ?thesis using advance_pipes_gameover_once [OF p] o by (simp add: initial_globals_def)
qed

end
