(* ===== verification/Game.thy ===== *)
theory Game
  imports Flight Pipes
begin

text \<open>
  Collision and game state machine: the main loop \<^verbatim>\<open>while running:\<close> (lines
  176--262) with \<^verbatim>\<open>reset_game()\<close> (lines 73--80). One iteration is one frame:
  the flight block (\<open>control_phase\<close>, skipped while the game is over), the pipe loop and
  prune (\<open>advance_pipes\<close>, run in every frame), the spawn test (\<open>spawn_check\<close>), the
  ground/ceiling test (\<open>boundary_check\<close>, which plays the game-over sound with no
  one-shot guard), and, while the game is over, the restart gesture read from a fresh
  frame (\<open>restart_phase\<close>). Drawing and the 30 frames-per-second clock are
  presentation and are not modelled. The inputs of a frame are the two camera frames the
  iteration may read and the two draws of \<^verbatim>\<open>random.randint(150, 400)\<close> the
  iteration may make (for the spawn test and for the reset); a run is a list of frames,
  ended by the quit event.
  The lemmas give the invariant of every reachable state, that a game in play always
  has pipes, that the only way out of game over is the restart gesture, what a restart
  produces, and two behaviours the spec does not expect: the game-over sound repeats in
  every frame after a ground/ceiling death, and the bird's \<open>x\<close> is never restored.
\<close>

definition boundary_check :: "game \<Rightarrow> game" where
  "boundary_check g =
     (if bird_y g < 0 \<or> bird_y g > of_int HEIGHT
      then play Gameover_sound (g\<lparr>game_over := True\<rparr>)
      else g)"

definition reset_game :: "int \<Rightarrow> game \<Rightarrow> game" where
  "reset_game height g =
     (let g1 = g\<lparr>bird_y := of_int (HEIGHT div 2), velocity := 0, pipes := []\<rparr>;
          g2 = spawn_pipe height g1
      in g2\<lparr>score := 0, game_over := False\<rparr>)"

definition restart_phase :: "capture \<Rightarrow> int \<Rightarrow> game \<Rightarrow> game" where
  "restart_phase c height g =
     (if game_over g
      then (case detect_restart c g of (r, g1) \<Rightarrow> if r then reset_game height g1 else g1)
      else g)"

record tick_input =
  control_frame :: capture
  restart_frame :: capture
  spawn_height :: int
  reset_height :: int

definition tick :: "tick_input \<Rightarrow> game \<Rightarrow> game" where
  "tick i g =
     restart_phase (restart_frame i) (reset_height i)
       (boundary_check
         (spawn_check (spawn_height i)
           (advance_pipes (control_phase (control_frame i) g))))"

fun run :: "tick_input list \<Rightarrow> game \<Rightarrow> game" where
  "run [] g = g"
| "run (i # is) g = run is (tick i g)"

definition init_game :: "int \<Rightarrow> game" where
  "init_game height = spawn_pipe height initial_globals"

text \<open>The draws of \<^verbatim>\<open>random.randint(150, 400)\<close> lie in their range.\<close>

definition valid_input :: "tick_input \<Rightarrow> bool" where
  "valid_input i =
     (150 \<le> spawn_height i \<and> spawn_height i \<le> 400 \<and> 150 \<le> reset_height i \<and> reset_height i \<le> 400)"

inductive reachable :: "game \<Rightarrow> bool" where
  start: "150 \<le> h \<Longrightarrow> h \<le> 400 \<Longrightarrow> reachable (init_game h)"
| step: "reachable g \<Longrightarrow> valid_input i \<Longrightarrow> reachable (tick i g)"

text \<open>
  What every reachable state keeps: the pipes ordered oldest first and more than 250
  apart in \<open>x\<close>, each on screen horizontally with its gap top in the random range,
  the bird at one of its two columns, a score that is not negative.
\<close>

definition pipe_ok :: "pipe \<Rightarrow> bool" where
  "pipe_ok p = (150 \<le> pipe_h p \<and> pipe_h p \<le> 400 \<and> -70 < pipe_x p \<and> pipe_x p \<le> WIDTH)"

definition game_inv :: "game \<Rightarrow> bool" where
  "game_inv g =
     (sorted_wrt (\<lambda>a b. a + 250 < b) (map pipe_x (pipes g)) \<and> list_all pipe_ok (pipes g)
      \<and> (bird_x g = 100 \<or> bird_x g = 10) \<and> 0 \<le> score g)"

text \<open>A test input: a frame in which neither camera read succeeds.\<close>

definition idle_frame :: tick_input where
  "idle_frame =
     \<lparr>control_frame = Read_failed, restart_frame = Read_failed, spawn_height = 200, reset_height = 200\<rparr>"

subsection \<open>The phases of a frame\<close>

lemma boundary_check_fields [simp]:
  "pipes (boundary_check g) = pipes g" "bird_x (boundary_check g) = bird_x g"
  "bird_y (boundary_check g) = bird_y g" "score (boundary_check g) = score g"
  "turbo_mode (boundary_check g) = turbo_mode g"
  "gameover_sound_played (boundary_check g) = gameover_sound_played g"
  by (simp_all add: boundary_check_def)

lemma boundary_check_game_over:
  "game_over (boundary_check g) \<longleftrightarrow> game_over g \<or> bird_y g < 0 \<or> bird_y g > of_int HEIGHT"
  by (simp add: boundary_check_def)

lemma reset_game_fields [simp]:
  "pipes (reset_game h g) = [\<lparr>pipe_x = WIDTH, pipe_h = h, scored = False\<rparr>]"
  "score (reset_game h g) = 0" "\<not> game_over (reset_game h g)"
  "bird_x (reset_game h g) = bird_x g" "bird_y (reset_game h g) = of_int (HEIGHT div 2)"
  "velocity (reset_game h g) = 0" "audio (reset_game h g) = audio g"
  "gameover_sound_played (reset_game h g) = gameover_sound_played g"
  "turbo_mode (reset_game h g) = turbo_mode g"
  by (simp_all add: reset_game_def Let_def)

lemma restart_phase_cases:
  "restart_phase c h g =
     (if game_over g \<and> (\<exists>hd. c = Captured (Some hd) \<and> classify (fingers_up hd) = Restart)
      then reset_game h (g\<lparr>gameover_sound_played := False\<rparr>) else g)"
  by (auto simp: restart_phase_def detect_restart_def classify_def split: capture.splits option.splits)

lemma spawn_check_pipes:
  "pipes (spawn_check h g) =
     (if (pipes g = [] \<or> pipe_x (last (pipes g)) < WIDTH - 250) \<and> \<not> game_over g
      then pipes g @ [\<lparr>pipe_x = WIDTH, pipe_h = h, scored = False\<rparr>] else pipes g)"
  by (simp add: spawn_check_def)

lemma spawn_check_fields [simp]:
  "bird_x (spawn_check h g) = bird_x g" "bird_y (spawn_check h g) = bird_y g"
  "score (spawn_check h g) = score g" "game_over (spawn_check h g) = game_over g"
  "gameover_sound_played (spawn_check h g) = gameover_sound_played g"
  "audio (spawn_check h g) = audio g" "turbo_mode (spawn_check h g) = turbo_mode g"
  by (simp_all add: spawn_check_def)

lemma game_over_before_restart:
  "game_over g \<Longrightarrow>
     game_over (boundary_check (spawn_check h (advance_pipes (control_phase c g))))"
  by (simp add: boundary_check_game_over advance_pipes_def pipe_loop_game_over)

subsection \<open>Play always has pipes\<close>

text \<open>
  C2. At the end of every frame, from any state, a game in
  play has at least one pipe: the spawn test refills an empty list while the game is
  in play, and a restart spawns a fresh pipe.
\<close>

theorem tick_playing_has_pipes:
  "\<not> game_over (tick i g) \<Longrightarrow> pipes (tick i g) \<noteq> []"
  by (auto simp: tick_def restart_phase_cases spawn_check_pipes boundary_check_game_over
           split: if_splits)


lemmas tick_eval = tick_def restart_phase_def boundary_check_def spawn_check_def spawn_pipe_def
  advance_pipes_def prune_pipes_def control_phase_def detect_hand_control_def flight_step_def
  score_pipe_def hits_def crash_def pipe_speed_def reset_game_def detect_restart_def
  init_game_def initial_globals_def play_def game_consts Let_def

theorem tick_playing_has_pipes_witness:
  "\<not> game_over (tick \<lparr>control_frame = Read_failed, restart_frame = Read_failed,
                       spawn_height = 200, reset_height = 200\<rparr> (init_game 200))
   \<and> pipes (tick \<lparr>control_frame = Read_failed, restart_frame = Read_failed,
                   spawn_height = 200, reset_height = 200\<rparr> (init_game 200)) \<noteq> []"
proof -
  have "\<not> game_over (tick \<lparr>control_frame = Read_failed, restart_frame = Read_failed,
                            spawn_height = 200, reset_height = 200\<rparr> (init_game 200))"
    by (simp add: tick_eval)
  with tick_playing_has_pipes show ?thesis by blast
qed

subsection \<open>The invariant of reachable states\<close>

lemma control_phase_inv: "game_inv g \<Longrightarrow> game_inv (control_phase c g)"
  by (simp add: game_inv_def)

lemma advance_pipes_inv:
  assumes "game_inv g"
  shows "game_inv (advance_pipes g)"
proof -
  let ?f = "step_pipe (bird_x g) (pipe_speed (turbo_mode g))"
  let ?L = "pipe_loop [] (pipes g) g"
  have pip: "pipes ?L = [] \<or> pipes ?L = map ?f (pipes g)"
    using pipe_loop_pipes [of "[]" "pipes g" g] by simp
  have "sorted_wrt (\<lambda>a b. a + 250 < b) (map pipe_x (map ?f (pipes g)))"
    unfolding map_pipe_x_step_pipe sorted_wrt_gap_shift using assms by (simp add: game_inv_def)
  with pip have sorted: "sorted_wrt (\<lambda>a b. a + 250 < b) (map pipe_x (pipes ?L))"
    by auto
  have ok: "\<forall>p \<in> set (pipes ?L). 150 \<le> pipe_h p \<and> pipe_h p \<le> 400 \<and> pipe_x p \<le> WIDTH"
    using pip assms pipe_speed_pos [of "turbo_mode g"]
    by (fastforce simp: game_inv_def pipe_ok_def list_all_iff step_pipe_def)
  have bx: "bird_x ?L = bird_x g \<or> bird_x ?L = 10" by (rule pipe_loop_bird_x)
  have sc: "score g \<le> score ?L" by (rule pipe_loop_score_mono)
  show ?thesis
    using sorted ok bx sc assms
    by (auto simp: advance_pipes_def game_inv_def pipe_ok_def list_all_iff sorted_wrt_map_filter)
qed

lemma spawn_check_inv:
  assumes "game_inv g" "150 \<le> h" "h \<le> 400"
  shows "game_inv (spawn_check h g)"
proof (cases "(pipes g = [] \<or> pipe_x (last (pipes g)) < WIDTH - 250) \<and> \<not> game_over g")
  case True
  have "\<forall>p \<in> set (pipes g). pipe_x p < WIDTH - 250"
  proof (cases "pipes g = []")
    case False
    then have "\<forall>p \<in> set (pipes g). pipe_x p \<le> pipe_x (last (pipes g))"
      using assms(1) sorted_wrt_gap_last [of 250 "map pipe_x (pipes g)"]
      by (simp add: game_inv_def last_map)
    with True False show ?thesis by (auto simp: game_consts)
  qed simp
  then show ?thesis
    using True assms
    by (auto simp: game_inv_def spawn_check_pipes pipe_ok_def sorted_wrt_append game_consts)
next
  case False
  then show ?thesis using assms by (auto simp: game_inv_def spawn_check_pipes)
qed

lemma boundary_check_inv: "game_inv g \<Longrightarrow> game_inv (boundary_check g)"
  by (simp add: game_inv_def)

lemma restart_phase_inv:
  "game_inv g \<Longrightarrow> 150 \<le> h \<Longrightarrow> h \<le> 400 \<Longrightarrow> game_inv (restart_phase c h g)"
  by (simp add: restart_phase_cases game_inv_def pipe_ok_def game_consts)

lemma tick_inv: "game_inv g \<Longrightarrow> valid_input i \<Longrightarrow> game_inv (tick i g)"
  unfolding tick_def valid_input_def
  by (intro restart_phase_inv boundary_check_inv spawn_check_inv advance_pipes_inv
            control_phase_inv) auto

lemma init_game_inv: "150 \<le> h \<Longrightarrow> h \<le> 400 \<Longrightarrow> game_inv (init_game h)"
  by (simp add: init_game_def initial_globals_def game_inv_def pipe_ok_def game_consts)

text \<open>
  C1. In every state the program can reach from its start with random draws in range,
  the pipes are ordered oldest first with more than 250 pixels between any two, each lies
  in \<open>(-70, WIDTH]\<close> with its gap top in \<open>[150, 400]\<close>, the bird is at \<open>x = 100\<close> or
  \<open>x = 10\<close>, and the score is not negative; hence at most five pipes are ever on the
  list.
\<close>

theorem reachable_game_inv: "reachable g \<Longrightarrow> game_inv g \<and> length (pipes g) \<le> 5"
proof -
  assume r: "reachable g"
  from r have inv: "game_inv g"
  proof (induction rule: reachable.induct)
    case (start h)
    then show ?case by (rule init_game_inv)
  next
    case (step g i)
    from step.IH step.hyps(2) show ?case by (rule tick_inv)
  qed
  have "250 * int (length (map pipe_x (pipes g)) - 1) < 1000 - (-70)"
    using inv by (intro spaced_length_le) (auto simp: game_inv_def pipe_ok_def list_all_iff game_consts)
  with inv show ?thesis by simp
qed

theorem reachable_game_inv_witness:
  "reachable (init_game 200) \<and> game_inv (init_game 200) \<and> length (pipes (init_game 200)) \<le> 5"
proof -
  have r: "reachable (init_game 200)" by (rule reachable.start) simp_all
  then show ?thesis using reachable_game_inv by blast
qed

subsection \<open>Leaving game over\<close>

lemma classify_four: "4 \<le> fingers_up h \<Longrightarrow> classify (fingers_up h) = Restart"
  by (simp add: classify_def)

text \<open>
  C4. In the game-over state, a frame whose restart camera frame shows
  four raised fingers starts a new game: in play, score 0, exactly one fresh unscored pipe
  at the right edge, the bird at mid-height and at rest.
\<close>

theorem tick_restart:
  assumes "game_over g" "restart_frame i = Captured (Some h)" "4 \<le> fingers_up h"
  shows "\<not> game_over (tick i g) \<and> score (tick i g) = 0
         \<and> pipes (tick i g) = [\<lparr>pipe_x = WIDTH, pipe_h = reset_height i, scored = False\<rparr>]
         \<and> bird_y (tick i g) = of_int (HEIGHT div 2) \<and> velocity (tick i g) = 0"
  using assms game_over_before_restart [OF assms(1)] classify_four [OF assms(3)]
  by (auto simp: tick_def restart_phase_cases)

theorem tick_restart_witness:
  "game_over (initial_globals\<lparr>game_over := True\<rparr>)
   \<and> restart_frame \<lparr>control_frame = Read_failed, restart_frame = Captured (Some (demo_hand fingers (PyFloat 1 (- 1)))),
                    spawn_height = 200, reset_height = 300\<rparr> = Captured (Some (demo_hand fingers (PyFloat 1 (- 1))))
   \<and> 4 \<le> fingers_up (demo_hand fingers (PyFloat 1 (- 1)))
   \<and> score (tick \<lparr>control_frame = Read_failed, restart_frame = Captured (Some (demo_hand fingers (PyFloat 1 (- 1)))),
                   spawn_height = 200, reset_height = 300\<rparr> (initial_globals\<lparr>game_over := True\<rparr>)) = 0"
proof -
  have f: "4 \<le> fingers_up (demo_hand fingers (PyFloat 1 (- 1)))"
    by (simp add: fingers_up_demo_hand fingers_def)
  show ?thesis
    using tick_restart [of "initial_globals\<lparr>game_over := True\<rparr>"
                           "\<lparr>control_frame = Read_failed, restart_frame = Captured (Some (demo_hand fingers (PyFloat 1 (- 1)))),
                             spawn_height = 200, reset_height = 300\<rparr>" "demo_hand fingers (PyFloat 1 (- 1))"] f
    by simp
qed

text \<open>
  C3. The game-over state is left only through the
  restart gesture: if a frame starts over and ends in play, its restart camera frame held
  a hand that the spec classifies as Restart. No collision, pipe or timer ends it.
\<close>

theorem tick_leaves_over_only_by_restart:
  assumes "game_over g" "\<not> game_over (tick i g)"
  shows "\<exists>h. restart_frame i = Captured (Some h) \<and> classify (fingers_up h) = Restart"
  using assms game_over_before_restart [OF assms(1)]
  by (auto simp: tick_def restart_phase_cases split: if_splits)

theorem tick_leaves_over_only_by_restart_witness:
  "game_over (initial_globals\<lparr>game_over := True\<rparr>)
   \<and> \<not> game_over (tick \<lparr>control_frame = Read_failed, restart_frame = Captured (Some (demo_hand fingers (PyFloat 1 (- 1)))),
                    spawn_height = 200, reset_height = 300\<rparr> (initial_globals\<lparr>game_over := True\<rparr>))
   \<and> (\<exists>h. Captured (Some (demo_hand fingers (PyFloat 1 (- 1)))) = Captured (Some h) \<and> classify (fingers_up h) = Restart)"
proof -
  let ?i = "\<lparr>control_frame = Read_failed, restart_frame = Captured (Some (demo_hand fingers (PyFloat 1 (- 1)))),
             spawn_height = 200, reset_height = 300\<rparr>"
  let ?g = "initial_globals\<lparr>game_over := True\<rparr>"
  have f: "4 \<le> fingers_up (demo_hand fingers (PyFloat 1 (- 1)))"
    by (simp add: fingers_up_demo_hand fingers_def)
  have over: "game_over ?g" by simp
  have play: "\<not> game_over (tick ?i ?g)"
    using f by (simp add: tick_def restart_phase_cases classify_def game_over_before_restart)
  show ?thesis using tick_leaves_over_only_by_restart [OF over play] over play by simp
qed

subsection \<open>Behaviours the spec does not expect\<close>

lemma tick_bird_x: "bird_x (tick i g) = bird_x g \<or> bird_x (tick i g) = 10"
  using pipe_loop_bird_x [of "[]" "pipes (control_phase (control_frame i) g)"
                             "control_phase (control_frame i) g"]
  by (auto simp: tick_def restart_phase_cases advance_pipes_def)

text \<open>
  C22. The collision branch moves the bird to \<open>x = 10\<close> and
  nothing ever moves it back: \<^verbatim>\<open>reset_game\<close> does not restore \<^verbatim>\<open>bird_x = 100\<close>, so
  after the first collision every later game is played with the bird at \<open>x = 10\<close>.
\<close>

theorem run_bird_x_stays_10:
  "bird_x g = 10 \<Longrightarrow> bird_x (run is g) = 10"
proof (induction "is" arbitrary: g)
  case Nil
  then show ?case by simp
next
  case (Cons i "is")
  have "bird_x (tick i g) = 10" using tick_bird_x [of i g] Cons.prems by auto
  then show ?case using Cons.IH by simp
qed

theorem run_bird_x_stays_10_witness:
  "bird_x (crash initial_globals) = 10
   \<and> bird_x (run [\<lparr>control_frame = Read_failed, restart_frame = Captured (Some (demo_hand fingers (PyFloat 1 (- 1)))),
                   spawn_height = 200, reset_height = 300\<rparr>] (crash initial_globals)) = 10"
proof -
  have "bird_x (crash initial_globals) = 10" by simp
  then show ?thesis using run_bird_x_stays_10 by blast
qed

text \<open>
  C23. After a ground or ceiling death the game-over sound
  has no one-shot guard: in every frame of the game-over state in which the bird is still
  above the screen, no pipe reaches it and no restart gesture is shown, the sound is
  played once more, and the state that causes it is kept for the next frame.
\<close>

theorem tick_boundary_sound_repeats:
  assumes "game_over g" "bird_y g < 0"
    and "\<forall>p \<in> set (pipes g). \<not> hits (bird_x g) (bird_y g)
                                  (step_pipe (bird_x g) (pipe_speed (turbo_mode g)) p)"
    and "\<not> (\<exists>h. restart_frame i = Captured (Some h) \<and> classify (fingers_up h) = Restart)"
  shows "plays Gameover_sound (audio (tick i g)) = plays Gameover_sound (audio g) + 1
         \<and> game_over (tick i g) \<and> bird_y (tick i g) = bird_y g"
  using assms pipe_loop_no_hit [OF assms(3), of "[]"]
  by (simp add: tick_def restart_phase_cases boundary_check_def advance_pipes_def play_def
                spawn_check_def)

theorem tick_boundary_sound_repeats_witness:
  "game_over (initial_globals\<lparr>game_over := True, bird_y := -3\<rparr>)
   \<and> bird_y (initial_globals\<lparr>game_over := True, bird_y := -3\<rparr>) < 0
   \<and> plays Gameover_sound
       (audio (tick \<lparr>control_frame = Read_failed, restart_frame = Read_failed,
                     spawn_height = 200, reset_height = 300\<rparr>
                 (initial_globals\<lparr>game_over := True, bird_y := -3\<rparr>))) = 1"
  using tick_boundary_sound_repeats
          [of "initial_globals\<lparr>game_over := True, bird_y := -3\<rparr>"
              "\<lparr>control_frame = Read_failed, restart_frame = Read_failed,
                spawn_height = 200, reset_height = 300\<rparr>"]
  by (simp add: initial_globals_def)

subsection \<open>How a game ends\<close>

lemma advance_pipes_no_hit_game_over:
  assumes "\<forall>p \<in> set (pipes g). \<not> hits (bird_x g) (bird_y g) (step_pipe (bird_x g) (pipe_speed (turbo_mode g)) p)"
  shows "game_over (advance_pipes g) = game_over g \<and> bird_y (advance_pipes g) = bird_y g"
  using pipe_loop_no_hit [OF assms, of "[]"] by (simp add: advance_pipes_def)

text \<open>
  C27. A game in play ends only for a cause: if a frame starts in play and ends over,
  either a pipe moved into the bird outside its gap, or the bird after the flight block
  is above or below the screen.
\<close>

theorem tick_game_over_cause:
  assumes "\<not> game_over g" "game_over (tick i g)"
  shows "(\<exists>p \<in> set (pipes g). hits (bird_x g) (bird_y (control_phase (control_frame i) g))
            (step_pipe (bird_x g) (pipe_speed (turbo_mode (control_phase (control_frame i) g))) p))
         \<or> bird_y (control_phase (control_frame i) g) < 0
         \<or> bird_y (control_phase (control_frame i) g) > of_int HEIGHT"
proof (rule ccontr)
  let ?g1 = "control_phase (control_frame i) g"
  assume "\<not> ?thesis"
  then have nohit: "\<forall>p \<in> set (pipes ?g1). \<not> hits (bird_x ?g1) (bird_y ?g1)
                       (step_pipe (bird_x ?g1) (pipe_speed (turbo_mode ?g1)) p)"
    and inb: "\<not> bird_y ?g1 < 0" "\<not> bird_y ?g1 > of_int HEIGHT"
    by auto
  have a: "game_over (advance_pipes ?g1) = False" "bird_y (advance_pipes ?g1) = bird_y ?g1"
    using advance_pipes_no_hit_game_over [OF nohit] assms(1) by simp_all
  then have "\<not> game_over (boundary_check (spawn_check (spawn_height i) (advance_pipes ?g1)))"
    using inb by (simp add: boundary_check_game_over)
  then have "\<not> game_over (tick i g)"
    by (simp add: tick_def restart_phase_cases)
  with assms(2) show False by simp
qed

theorem tick_game_over_cause_witness:
  "\<not> game_over (initial_globals\<lparr>bird_y := 699.9\<rparr>)
   \<and> game_over (tick \<lparr>control_frame = Read_failed, restart_frame = Read_failed,
                     spawn_height = 200, reset_height = 200\<rparr> (initial_globals\<lparr>bird_y := 699.9\<rparr>))
   \<and> bird_y (control_phase Read_failed (initial_globals\<lparr>bird_y := 699.9\<rparr>)) > of_int HEIGHT"
proof -
  let ?i = "\<lparr>control_frame = Read_failed, restart_frame = Read_failed,
             spawn_height = 200, reset_height = 200\<rparr>"
  let ?g = "initial_globals\<lparr>bird_y := 699.9\<rparr>"
  have n: "\<not> game_over ?g" by (simp add: initial_globals_def)
  have o: "game_over (tick ?i ?g)" by (simp add: tick_eval)
  have b: "bird_y (control_phase Read_failed ?g) > of_int HEIGHT"
    by (simp add: control_phase_def detect_hand_control_simps flight_step_def initial_globals_def
                  game_consts)
  show ?thesis using tick_game_over_cause [OF n o] n o b by simp
qed

text \<open>
  C28. The score still moves while the game is over: after a ground/ceiling death the
  pipes are not cleared and keep scrolling, and every pipe the bird's column passes adds a
  point (and a score sound), although the spec only lets the score grow during play.
\<close>

theorem tick_scores_while_over:
  assumes "game_over g"
    and "\<forall>p \<in> set (pipes g). \<not> hits (bird_x g) (bird_y g) (step_pipe (bird_x g) (pipe_speed (turbo_mode g)) p)"
    and "\<not> (\<exists>h. restart_frame i = Captured (Some h) \<and> classify (fingers_up h) = Restart)"
  shows "game_over (tick i g)
         \<and> score (tick i g)
             = score g + int (length (filter (newly_scored (bird_x g) (pipe_speed (turbo_mode g))) (pipes g)))"
  using assms pipe_loop_no_hit [OF assms(2), of "[]"]
  by (simp add: tick_def restart_phase_cases boundary_check_game_over advance_pipes_def)

theorem tick_scores_while_over_witness:
  "game_over (initial_globals\<lparr>game_over := True, bird_y := -3,
                               pipes := [\<lparr>pipe_x = 30, pipe_h = 300, scored = False\<rparr>]\<rparr>)
   \<and> score (tick \<lparr>control_frame = Read_failed, restart_frame = Read_failed,
                   spawn_height = 200, reset_height = 200\<rparr>
               (initial_globals\<lparr>game_over := True, bird_y := -3,
                                pipes := [\<lparr>pipe_x = 30, pipe_h = 300, scored = False\<rparr>]\<rparr>)) = 1"
  using tick_scores_while_over
          [of "initial_globals\<lparr>game_over := True, bird_y := -3,
                               pipes := [\<lparr>pipe_x = 30, pipe_h = 300, scored = False\<rparr>]\<rparr>"
              "\<lparr>control_frame = Read_failed, restart_frame = Read_failed,
                spawn_height = 200, reset_height = 200\<rparr>"]
  by (simp add: initial_globals_def hits_def step_pipe_def pipe_speed_def newly_scored_def game_consts)

text \<open>
  C30. A collision and a restart gesture in the same frame never show the game-over
  phase: the frame starts in play, collides, and ends in a fresh game in play with score
  0 and one pipe, played with the bird left at \<open>x = 10\<close>.
\<close>

theorem tick_crash_and_restart_same_frame:
  assumes "\<not> game_over g"
    and "\<exists>p \<in> set (pipes g). hits (bird_x g) (bird_y (control_phase (control_frame i) g))
           (step_pipe (bird_x g) (pipe_speed (turbo_mode (control_phase (control_frame i) g))) p)"
    and "restart_frame i = Captured (Some h)" "4 \<le> fingers_up h"
  shows "\<not> game_over (tick i g) \<and> score (tick i g) = 0 \<and> bird_x (tick i g) = 10
         \<and> pipes (tick i g) = [\<lparr>pipe_x = WIDTH, pipe_h = reset_height i, scored = False\<rparr>]"
proof -
  let ?g1 = "control_phase (control_frame i) g"
  have "pipes (pipe_loop [] (pipes ?g1) ?g1) = [] \<and> game_over (pipe_loop [] (pipes ?g1) ?g1)
        \<and> bird_x (pipe_loop [] (pipes ?g1) ?g1) = 10"
    using pipe_loop_hit [of "pipes ?g1" ?g1 "[]"] assms(2) by simp
  then have "game_over (advance_pipes ?g1)" "bird_x (advance_pipes ?g1) = 10"
    by (simp_all add: advance_pipes_def)
  then show ?thesis
    using assms(3,4) by (simp add: tick_def restart_phase_cases boundary_check_game_over classify_def)
qed

theorem tick_crash_and_restart_same_frame_witness:
  "\<not> game_over (initial_globals\<lparr>bird_y := 500, pipes := [\<lparr>pipe_x = 105, pipe_h = 150, scored = False\<rparr>]\<rparr>)
   \<and> score (tick \<lparr>control_frame = Read_failed, restart_frame = Captured (Some (demo_hand fingers (PyFloat 1 (- 1)))),
                   spawn_height = 200, reset_height = 300\<rparr>
              (initial_globals\<lparr>bird_y := 500, pipes := [\<lparr>pipe_x = 105, pipe_h = 150, scored = False\<rparr>]\<rparr>)) = 0
   \<and> \<not> game_over (tick \<lparr>control_frame = Read_failed, restart_frame = Captured (Some (demo_hand fingers (PyFloat 1 (- 1)))),
                   spawn_height = 200, reset_height = 300\<rparr>
              (initial_globals\<lparr>bird_y := 500, pipes := [\<lparr>pipe_x = 105, pipe_h = 150, scored = False\<rparr>]\<rparr>))"
proof -
  let ?g = "initial_globals\<lparr>bird_y := 500, pipes := [\<lparr>pipe_x = 105, pipe_h = 150, scored = False\<rparr>]\<rparr>"
  let ?i = "\<lparr>control_frame = Read_failed, restart_frame = Captured (Some (demo_hand fingers (PyFloat 1 (- 1)))),
             spawn_height = 200, reset_height = 300\<rparr>"
  have n: "\<not> game_over ?g" by (simp add: initial_globals_def)
  have h: "\<exists>p \<in> set (pipes ?g). hits (bird_x ?g) (bird_y (control_phase (control_frame ?i) ?g))
           (step_pipe (bird_x ?g) (pipe_speed (turbo_mode (control_phase (control_frame ?i) ?g))) p)"
    by (simp add: initial_globals_def control_phase_def detect_hand_control_simps flight_step_def
                  hits_def step_pipe_def pipe_speed_def game_consts)
  have f: "4 \<le> fingers_up (demo_hand fingers (PyFloat 1 (- 1)))"
    by (simp add: fingers_up_demo_hand fingers_def)
  show ?thesis using tick_crash_and_restart_same_frame [OF n h _ f] n by simp
qed

subsection \<open>The score falls only on a restart\<close>

text \<open>
  C24. A frame lowers the score only through the restart
  gesture, which sets it to 0: the pipe loop only adds points and no other phase of the
  frame writes the score. This is the spec's \<open>score\<close> that only increases during
  play and is reset only on restart, for every frame, in play or over.
\<close>

theorem tick_score_falls_only_on_restart:
  "score g \<le> score (tick i g)
   \<or> score (tick i g) = 0
     \<and> (\<exists>h. restart_frame i = Captured (Some h) \<and> classify (fingers_up h) = Restart)"
proof -
  define g1 where "g1 = control_phase (control_frame i) g"
  define g3 where "g3 = boundary_check (spawn_check (spawn_height i) (advance_pipes g1))"
  have "score g \<le> score g3"
    using pipe_loop_score_mono [of g1 "[]" "pipes g1"] by (simp add: g1_def g3_def advance_pipes_def)
  moreover have "tick i g = restart_phase (restart_frame i) (reset_height i) g3"
    by (simp add: tick_def g1_def g3_def)
  ultimately show ?thesis by (auto simp: restart_phase_cases)
qed

subsection \<open>Without the camera a game ends\<close>

lemma pipe_loop_free_flight:
  "\<not> game_over (pipe_loop d ps g) \<Longrightarrow>
   \<not> game_over g \<and> bird_y (pipe_loop d ps g) = bird_y g \<and> velocity (pipe_loop d ps g) = velocity g"
  by (rule pipe_loop_rel [where R = "\<lambda>a b. \<not> game_over b \<longrightarrow>
        \<not> game_over a \<and> bird_y b = bird_y a \<and> velocity b = velocity a", rule_format])
     (auto simp: score_pipe_def crash_def Let_def play_def)

lemma tick_no_camera_over:
  "game_over g \<Longrightarrow> restart_frame i = Read_failed \<Longrightarrow> game_over (tick i g)"
  by (simp add: tick_def restart_phase_cases advance_pipes_def pipe_loop_game_over
      boundary_check_game_over)

lemma run_no_camera_over:
  "game_over g \<Longrightarrow> list_all (\<lambda>i. restart_frame i = Read_failed) is \<Longrightarrow> game_over (run is g)"
  by (induction "is" arbitrary: g) (simp_all add: tick_no_camera_over)

lemma tick_no_camera_fall:
  assumes "control_frame i = Read_failed" "restart_frame i = Read_failed" "\<not> game_over (tick i g)"
  shows "\<not> game_over g \<and> velocity (tick i g) = velocity g + gravity
         \<and> bird_y (tick i g) = bird_y g + velocity g + gravity
         \<and> 0 \<le> bird_y (tick i g) \<and> bird_y (tick i g) \<le> of_int HEIGHT"
proof -
  have g: "\<not> game_over g" using assms(2,3) tick_no_camera_over by blast
  define g1 where "g1 = control_phase (control_frame i) g"
  have g1: "velocity g1 = velocity g + gravity \<and> bird_y g1 = bird_y g + velocity g + gravity"
    using g assms(1) by (simp add: g1_def control_phase_alt detect_hand_control_simps flight_step_free_fall)
  define g2 where "g2 = pipe_loop [] (pipes g1) g1"
  have t: "tick i g = boundary_check (spawn_check (spawn_height i) (prune_pipes g2))"
    using assms(2) by (simp add: tick_def restart_phase_cases g1_def g2_def advance_pipes_def)
  have v: "velocity (boundary_check (spawn_check h (prune_pipes g2))) = velocity g2" for h
    by (simp add: boundary_check_def spawn_check_def spawn_pipe_def prune_pipes_def play_def)
  have "\<not> game_over g2 \<and> 0 \<le> bird_y g2 \<and> bird_y g2 \<le> of_int HEIGHT"
    using assms(3) unfolding t by (auto simp: boundary_check_game_over)
  then have "bird_y g2 = bird_y g1 \<and> velocity g2 = velocity g1 \<and> 0 \<le> bird_y g2 \<and> bird_y g2 \<le> of_int HEIGHT"
    using pipe_loop_free_flight [of "[]" "pipes g1" g1] by (simp add: g2_def)
  then show ?thesis using g g1 v unfolding t by simp
qed

lemma run_append: "run (xs @ ys) g = run ys (run xs g)"
  by (induction xs arbitrary: g) simp_all

lemma run_no_camera_fall:
  "list_all (\<lambda>i. control_frame i = Read_failed \<and> restart_frame i = Read_failed) is \<Longrightarrow>
   \<not> game_over (run is g) \<Longrightarrow>
   bird_y (run is g) = bird_y g + of_nat (length is) * velocity g
                       + of_nat (length is) * (of_nat (length is) + 1) / 4
   \<and> velocity (run is g) = velocity g + of_nat (length is) / 2
   \<and> (is \<noteq> [] \<longrightarrow> 0 \<le> bird_y (run is g) \<and> bird_y (run is g) \<le> 700)"
proof (induction "is" arbitrary: g)
  case Nil
  then show ?case by simp
next
  case (Cons i "is")
  have r: "run (i # is) g = run is (tick i g)" by simp
  have "\<not> game_over (tick i g)"
    using Cons.prems run_no_camera_over [of "tick i g" "is"] by (auto simp: list_all_iff)
  then have f: "\<not> game_over g \<and> velocity (tick i g) = velocity g + 1 / 2
                \<and> bird_y (tick i g) = bird_y g + velocity g + 1 / 2
                \<and> 0 \<le> bird_y (tick i g) \<and> bird_y (tick i g) \<le> 700"
    using Cons.prems(1) tick_no_camera_fall [of i g] by (simp add: gravity_def HEIGHT_def)
  have ih: "bird_y (run is (tick i g)) = bird_y (tick i g) + of_nat (length is) * velocity (tick i g)
                       + of_nat (length is) * (of_nat (length is) + 1) / 4
            \<and> velocity (run is (tick i g)) = velocity (tick i g) + of_nat (length is) / 2
            \<and> (is \<noteq> [] \<longrightarrow> 0 \<le> bird_y (run is (tick i g)) \<and> bird_y (run is (tick i g)) \<le> 700)"
    using Cons.prems by (intro Cons.IH) (simp_all add: r)
  show ?case unfolding r using ih f by (cases "is = []") (simp_all add: field_simps)
qed

text \<open>
  C25. A game in play ends within 107 frames in which the
  camera delivers nothing, from any state whatsoever: the bird then falls freely
  (\<open>y\<close> grows by \<open>v + k / 2\<close> in frame \<open>k\<close>), and a parabola cannot stay inside
  \<open>[0, 700]\<close> at frames 1, 54 and 107, whose second difference is \<open>1404.5\<close>; and once
  over, the game stays over without a restart gesture.
\<close>

theorem no_camera_ends_game:
  assumes "107 \<le> length is"
    and "list_all (\<lambda>i. control_frame i = Read_failed \<and> restart_frame i = Read_failed) is"
  shows "game_over (run is g)"
proof (rule ccontr)
  assume nover: "\<not> game_over (run is g)"
  have pre: "\<not> game_over (run (take k is) g)" if "k \<le> length is" for k
  proof
    assume "game_over (run (take k is) g)"
    moreover have "list_all (\<lambda>i. restart_frame i = Read_failed) (drop k is)"
      using assms(2) by (auto simp: list_all_iff dest: in_set_dropD)
    ultimately have "game_over (run (drop k is) (run (take k is) g))" by (rule run_no_camera_over)
    with nover show False by (simp add: run_append [symmetric])
  qed
  have y: "bird_y (run (take k is) g) = bird_y g + of_nat k * velocity g + of_nat k * (of_nat k + 1) / 4
           \<and> 0 \<le> bird_y (run (take k is) g) \<and> bird_y (run (take k is) g) \<le> 700"
    if "0 < k" "k \<le> length is" for k
  proof -
    have "list_all (\<lambda>i. control_frame i = Read_failed \<and> restart_frame i = Read_failed) (take k is)"
      using assms(2) by (auto simp: list_all_iff dest: in_set_takeD)
    moreover have "length (take k is) = k" "take k is \<noteq> []" using that by auto
    ultimately show ?thesis using run_no_camera_fall [of "take k is" g] pre [OF that(2)] by simp
  qed
  have y1: "bird_y (run (take 1 is) g) = bird_y g + velocity g + 1 / 2
           \<and> 0 \<le> bird_y (run (take 1 is) g) \<and> bird_y (run (take 1 is) g) \<le> 700"
    using y [of 1] assms(1) by simp
  have y54: "bird_y (run (take 54 is) g) = bird_y g + 54 * velocity g + 1485 / 2
           \<and> 0 \<le> bird_y (run (take 54 is) g) \<and> bird_y (run (take 54 is) g) \<le> 700"
    using y [of 54] assms(1) by simp
  have y107: "bird_y (run (take 107 is) g) = bird_y g + 107 * velocity g + 2889
           \<and> 0 \<le> bird_y (run (take 107 is) g) \<and> bird_y (run (take 107 is) g) \<le> 700"
    using y [of 107] assms(1) by simp
  from y1 y54 y107 show False by linarith
qed

theorem no_camera_ends_game_witness:
  "107 \<le> length (replicate 107 idle_frame)
   \<and> list_all (\<lambda>i. control_frame i = Read_failed \<and> restart_frame i = Read_failed)
       (replicate 107 idle_frame)
   \<and> game_over (run (replicate 107 idle_frame) (init_game 200))"
  using no_camera_ends_game [of "replicate 107 idle_frame" "init_game 200"]
  by (simp add: idle_frame_def list_all_iff)

end
