(* ===== verification/Spec2Isabelle.thy ===== *)
theory Spec2Isabelle
  imports Game
begin

text \<open>
  \<^bold>\<open>A verification model of \<^verbatim>\<open>src/hand_flappy_pro.py\<close>\<close>, the hand-gesture
  controlled Flappy Bird. The program is one Python module: module-level globals, four
  functions (\<^verbatim>\<open>spawn_pipe\<close>, \<^verbatim>\<open>reset_game\<close>, \<^verbatim>\<open>detect_turbo_gesture\<close>,
  \<^verbatim>\<open>detect_hand_control\<close>, \<^verbatim>\<open>detect_restart\<close>) and a \<^verbatim>\<open>while running:\<close> loop
  whose iteration is one frame. Per frame: the camera frame is read and interpreted
  (landmarks to a finger count and a palm height), the palm height is smoothed, the bird's
  velocity and height are integrated, the pipes are moved, scored and checked for
  collision, pruned and spawned, the ground/ceiling is checked, and, while the game is
  over, a restart gesture is looked for in a second frame.

  \<^bold>\<open>Theories.\<close>
  \<^item> \<open>Flappy_Prelude\<close>: the module constants (\<^verbatim>\<open>WIDTH\<close>, \<^verbatim>\<open>HEIGHT\<close>,
    \<^verbatim>\<open>gravity\<close>, \<^verbatim>\<open>pipe_gap\<close>, the two pipe speeds) in the collection
    \<open>game_consts\<close>; truncation toward zero of a real (\<open>py_int\<close>) and of an integer
    quotient (\<open>trunc_div\<close>); shared lemmas on integer division and sorted lists.
  \<^item> \<open>Py_Float\<close>: Python floats (IEEE binary64) as dyadic values \<open>PyFloat m e\<close>
    (\<open>m * 2 ^ e\<close>), with \<open>fround\<close> rounding an exact result to 53 bits, to nearest,
    ties to even, \<open>f_of_int\<close>, \<open>fmul\<close>, \<open>fadd\<close>, \<open>fsub\<close> and \<^verbatim>\<open>int()\<close> as
    \<open>f_int\<close>; the relative error bound \<open>2 ^ -53\<close> of each operation (\<open>fround_err\<close>,
    \<open>fmul_err\<close>, \<open>fadd_err\<close>), exactness of small products, \<open>f_int = py_int o fval\<close>.
  \<^item> \<open>Game_State\<close>: the globals as the record \<open>game\<close>, a pipe
    \<^verbatim>\<open>[x, height, scored]\<close> as the record \<open>pipe\<close>, the camera input \<open>capture\<close>
    (failed read, or a frame with zero or one hand given by its landmarks' \<open>y\<close>, each a
    float), the sounds and the audio log \<open>audio\<close> that \<^verbatim>\<open>.play()\<close> appends to
    (\<open>play\<close>), and the globals as initialised (\<open>initial_globals\<close>, lines 30--65).
  \<^item> \<open>Gesture\<close> (Landmark Interpreter): the finger-counting loop \<open>up_loop\<close> /
    \<open>fingers_up\<close>, \<open>detect_turbo_gesture\<close> and \<open>detect_restart\<close>; the spec's
    classification \<open>classify\<close> and its rising-edge count \<open>turbo_entries\<close>.
  \<^item> \<open>Smoother\<close> (Signal Smoother): the float literal \<open>alpha\<close>, \<open>target_y\<close>,
    \<open>smooth_update\<close> and \<open>detect_hand_control\<close>; the spec's closed form \<open>ema\<close>.
  \<^item> \<open>Flight\<close> (Flight Dynamics): \<open>flight_step\<close> and \<open>control_phase\<close>, the block
    \<^verbatim>\<open>if not game_over:\<close> of the loop.
  \<^item> \<open>Pipes\<close> (Obstacle Pipeline and collision test): \<open>spawn_pipe\<close>,
    \<open>score_pipe\<close>, \<open>hits\<close>, \<open>crash\<close>, the loop \<open>pipe_loop\<close>, \<open>prune_pipes\<close>,
    \<open>advance_pipes\<close> and \<open>spawn_check\<close>.
  \<^item> \<open>Game\<close> (Game State Machine): \<open>boundary_check\<close>, \<open>reset_game\<close>,
    \<open>restart_phase\<close>, the frame \<open>tick\<close> composed in the source's order, runs
    \<open>run\<close>, the start state \<open>init_game\<close>, the reachable states \<open>reachable\<close> and their
    invariant \<open>game_inv\<close>.
  \<^item> this theory: a property that crosses the interpreter, the flight block and the
    pipe stage.

  \<^bold>\<open>Correspondence.\<close> Each definition keeps the source's name where HOL allows
  and takes the part of the globals it reads as the record and returns the record
  updated. Early returns and Python truthiness are written out: \<^verbatim>\<open>if hand_y:\<close> is
  false for \<open>None\<close> and for \<open>0\<close>; \<^verbatim>\<open>pipes.clear()\<close> inside \<^verbatim>\<open>for pipe in pipes:\<close>
  ends the iteration; \<^verbatim>\<open>pipes[-1]\<close> is guarded by the short-circuit emptiness test.
  Inputs of the environment are parameters: the camera frames of a frame (\<open>tick_input\<close>)
  and the draws of \<^verbatim>\<open>random.randint(150, 400)\<close>, which \<open>valid_input\<close> keeps in range.

  \<^bold>\<open>What is proved.\<close>
  \<^item> Gesture: the code's tests refine the spec's classification; the turbo sound plays
    once per rising edge (\<open>turbo_sound_edge\<close>); restart answers exactly the Restart class.
  \<^item> Smoother: for a 32-bit landmark the scaling \<^verbatim>\<open>palm_y * HEIGHT\<close> is exact in
    doubles; on coordinates in \<open>[0, 2^40]\<close> the float update is the quotient
    \<open>(3 t + 17 s) div 20\<close> or, when \<open>20\<close> divides \<open>3 t + 17 s\<close>, one less; it refines
    the spec's exponential average (never above it, less than \<open>20/3\<close> below); its fixed
    points are \<open>[t - 6, t - 1]\<close> and possibly \<open>t\<close>; from above it settles at \<open>t\<close> or
    \<open>t - 1\<close> within \<open>s - t\<close> frames; frames without a hand freeze the value.
  \<^item> Flight: the velocity law on each branch (failed read, frame without a hand, hand),
    and the exact closed form under a steady control value: geometric convergence to
    \<open>t + gravity / gain\<close>, a hover point below the target.
  \<^item> Pipes: the pipe stage in closed form without a hit (positions, speeds 5 and 10,
    scoring) and with a hit; score and score sound agree; scoring is idempotent; no pipe
    is dropped unscored; the collision's game-over sound is one-shot.
  \<^item> Game: the invariant of all reachable states (rule induction over \<open>reachable\<close>):
    pipes more than 250 apart and on screen, hence at most five; play always has a pipe;
    a game ends only by a collision or by leaving the screen; game over is left only by
    the restart gesture, and the restart produces the spec's fresh game; the score falls
    only by a restart; 107 frames without camera input end any game (liveness).
  \<^item> Findings, each a theorem: a frame without a hand still steers toward the frozen
    smoothed value (\<open>Flight.control_phase_no_hand\<close>); turbo persists without a hand
    (\<open>no_hand_keeps_turbo_speed\<close>); smoothing stalls up to six pixels short from below
    (\<open>Smoother.smooth_fixed_iff\<close>) and, through the rounding of the float sum, can end
    one pixel short of the target even from above (\<open>Smoother.smooth_reaches_target\<close>);
    the bird hovers below the hand (\<open>Flight.flight_hover_converges\<close>); a pipe is dropped
    at \<open>x = -70\<close>, not below it (\<open>Pipes.advance_pipes_positions\<close>); the game-over sound
    repeats in every frame after a ground/ceiling death
    (\<open>Game.tick_boundary_sound_repeats\<close>) and the score still grows then
    (\<open>Game.tick_scores_while_over\<close>); the bird's \<open>x\<close> is never restored after a
    collision (\<open>Game.run_bird_x_stays_10\<close>); a collision and a restart in one frame skip
    the Over phase (\<open>Game.tick_crash_and_restart_same_frame\<close>).

  \<^bold>\<open>Modelling choices.\<close> Where \<^verbatim>\<open>int()\<close> truncates a float the float is modelled
  bit-exactly: the palm scaling (line 130) and the smoothing expression (line 132) are
  evaluated in \<open>Py_Float\<close>, operation by operation in Python's order, the literal
  \<^verbatim>\<open>0.15\<close> being its nearest double. Overflow to infinity (from \<open>2 ^ 1024\<close>) is not
  modelled; the smoothing theorems assume coordinates in \<open>[0, 2^40]\<close>, far beyond the
  screen, where the accumulated rounding error stays below \<open>1/20\<close>. A landmark is a
  float; MediaPipe delivers 32-bit floats, for which the palm scaling is exact
  (\<open>Smoother.target_y_float32\<close>). The bird's height and velocity are never truncated and
  are exact reals. Python ints are unbounded and are \<open>int\<close>. No loop of the program
  needs fuel: the pipe loop is structural recursion on the list, the finger count
  recursion on four pairs, and the frame loop is a run over a finite list of frames
  (quitting is the end of the list).

  \<^bold>\<open>Not modelled.\<close> Rendering (\<^verbatim>\<open>screen.blit\<close>, fonts, the game-over text),
  asset and sound loading (\<^verbatim>\<open>bg_sound.play(-1)\<close> is not recorded in \<open>audio\<close>), the
  camera window (\<^verbatim>\<open>cv2.imshow\<close>), the pygame event queue beyond quitting, the 30 FPS
  clock, and the MediaPipe model itself, which is the environment that produces the
  landmarks.

  \<^bold>\<open>Plan for later sittings.\<close> Properties of whole runs (the audio log of a run:
  one collision sound per game, score sounds equal to points over a run); the bird's
  motion during play with the smoother and the flight law composed (the hover point of
  the composed loop); reachability from \<open>init_game\<close> of the findings (scoring while
  over, the same-frame crash and restart, the bird left at \<open>x = 10\<close>).
\<close>

text \<open>
  C26. Across the interpreter, the flight block and the
  pipe stage: in play, when the control frame has no hand (or cannot be read) the turbo
  mode of the last hand is kept, so in a frame without a collision the pipes still scroll
  at turbo speed 10 although no two-finger gesture is being shown.
\<close>

theorem no_hand_keeps_turbo_speed:
  assumes "\<not> game_over g" "turbo_mode g"
    and "control_frame i = Read_failed \<or> control_frame i = Captured None"
    and "\<forall>p \<in> set (pipes g). \<not> hits (bird_x g) (bird_y (control_phase (control_frame i) g))
                                  (step_pipe (bird_x g) 10 p)"
  shows "turbo_mode (control_phase (control_frame i) g)
         \<and> map pipe_x (pipes (advance_pipes (control_phase (control_frame i) g)))
             = filter (\<lambda>x. -70 < x) (map (\<lambda>p. pipe_x p - 10) (pipes g))"
proof -
  let ?g1 = "control_phase (control_frame i) g"
  have t: "turbo_mode ?g1"
    using assms(1-3) by (auto simp: control_phase_def detect_hand_control_simps)
  then have sp: "pipe_speed (turbo_mode ?g1) = 10" by (simp add: pipe_speed_def game_consts)
  have "pipe_loop [] (pipes ?g1) ?g1 =
          ?g1\<lparr>pipes := map (step_pipe (bird_x ?g1) 10) (pipes ?g1),
              score := score ?g1 + int (length (filter (newly_scored (bird_x ?g1) 10) (pipes ?g1))),
              audio := audio ?g1 @ replicate (length (filter (newly_scored (bird_x ?g1) 10) (pipes ?g1)))
                                     Score_sound\<rparr>"
    using pipe_loop_no_hit [of "pipes ?g1" ?g1 "[]"] assms(4) sp by simp
  with t show ?thesis
    by (simp add: advance_pipes_def filter_map comp_def step_pipe_def)
qed

theorem no_hand_keeps_turbo_speed_witness:
  "\<not> game_over (initial_globals\<lparr>turbo_mode := True\<rparr>) \<and> turbo_mode (initial_globals\<lparr>turbo_mode := True\<rparr>)
   \<and> map pipe_x (pipes (advance_pipes (control_phase Read_failed
         (initial_globals\<lparr>turbo_mode := True, pipes := [\<lparr>pipe_x = 500, pipe_h = 300, scored = False\<rparr>]\<rparr>))))
     = [490]"
  using no_hand_keeps_turbo_speed
          [of "initial_globals\<lparr>turbo_mode := True, pipes := [\<lparr>pipe_x = 500, pipe_h = 300, scored = False\<rparr>]\<rparr>"
              "\<lparr>control_frame = Read_failed, restart_frame = Read_failed, spawn_height = 200, reset_height = 200\<rparr>"]
  by (simp add: initial_globals_def hits_def step_pipe_def game_consts control_phase_def
                detect_hand_control_simps flight_step_def Let_def)

end
